theory Spec2Isabelle
  imports Complex_Main "HOL-Library.Multiset" "HOL-Library.Char_ord" "HOL-Library.List_Lexorder"
begin

section \<open>The Huell Howser archive scraper\<close>

text \<open>
  A shallow embedding of the scraper, in its variant with the episode resolver. The
  shorter variant \<^verbatim>\<open>src/index.js\<close> has the same \<^verbatim>\<open>getFileSize\<close>, \<^verbatim>\<open>getJWConfig\<close>,
  \<^verbatim>\<open>getVideosFromJWPlayer\<close> and \<^verbatim>\<open>getPageVideos\<close>, up to the shape of the cache object and
  the subtitle track; it has no resolver, and its manifest is sorted by the number in
  the title.

  Conventions of the model.
  \<^item> A JavaScript string is the \<open>string\<close> of its UTF-8 bytes. Every pattern of the program
    is ASCII or one of the three code points U+2013, U+2014, U+2019, so searching the bytes
    of well-formed UTF-8 finds exactly the matches on the characters.
  \<^item> A rejected promise or a \<^verbatim>\<open>throw\<close> is the \<open>Inl\<close> of a result; an \<^verbatim>\<open>async\<close> function
    takes the state and returns its result with the state it leaves, also when it fails.
  \<^item> The network is an oracle that answers a request from the history of all requests
    made so far; every request is recorded in the state, in order.
  \<^item> Functions of the language and of third-party packages (\<^verbatim>\<open>JSON.parse\<close>,
    \<^verbatim>\<open>parseInt\<close>, \<^verbatim>\<open>localeCompare\<close>, \<^verbatim>\<open>path.basename\<close>, cheerio, sanitize-filename,
    fuzzyset.js, shell-escape) are parameters, collected in the record \<open>lib\<close>.
  \<^item> Console output and the running total of sizes, which only feeds it, are left out,
    and so are the \<^verbatim>\<open>--single\<close> mode and \<^verbatim>\<open>downloadVideos\<close>, which run the download.
  \<^item> The parsed data has the shape the program expects: a playlist is falsy or an array
    of entries with a \<^verbatim>\<open>sources\<close> array, a source has a \<^verbatim>\<open>file\<close>, numbers are integers;
    a key of a cache object is never a name that every object inherits.
\<close>

subsection \<open>Values, errors, requests\<close>

datatype js_error =
    Thrown string        \<comment> \<open>\<^verbatim>\<open>throw '...'\<close>: the program throws strings\<close>
  | TypeError            \<comment> \<open>a property read of \<^verbatim>\<open>null\<close> or \<^verbatim>\<open>undefined\<close>\<close>
  | LibraryError string  \<comment> \<open>an error object raised by a package or by the network\<close>

datatype js_num = NaN | Num int

datatype request =
    HttpGet string     \<comment> \<open>\<^verbatim>\<open>promisedRequest(url)\<close>\<close>
  | HttpHead string    \<comment> \<open>\<^verbatim>\<open>promisedRequest({method: 'HEAD', url})\<close>\<close>
  | FeedGet string     \<comment> \<open>\<^verbatim>\<open>request(url).pipe(new FeedParser)\<close>\<close>
  | TvdbGet int        \<comment> \<open>\<^verbatim>\<open>tvdb.getEpisodesBySeriesId(id)\<close>\<close>

record video =
  v_src :: string
  v_label :: string
  v_size :: js_num

record page =
  p_pageUrl :: string
  p_sourceUrl :: string
  p_title :: string
  p_HD :: "video option"          \<comment> \<open>\<^verbatim>\<open>page.videos.HD\<close>\<close>
  p_SD :: "video option"          \<comment> \<open>\<^verbatim>\<open>page.videos.SD\<close>\<close>
  p_subtitles :: "string option"
  p_show :: "string option"
  p_renamed :: "string option"

record episode =
  episodeName :: string           \<comment> \<open>the empty string also stands for a missing name: both are falsy\<close>
  airedSeason :: int
  airedEpisodeNumber :: int

record jw_source =
  s_type :: string                \<comment> \<open>\<^verbatim>\<open>source.type\<close>\<close>
  s_file :: string                \<comment> \<open>\<^verbatim>\<open>source.file\<close>\<close>
  s_width :: int                  \<comment> \<open>\<^verbatim>\<open>source.width\<close>\<close>

datatype playlist_value =
    Falsy                            \<comment> \<open>\<^verbatim>\<open>null\<close>, \<^verbatim>\<open>false\<close>, \<^verbatim>\<open>0\<close> or \<^verbatim>\<open>""\<close>\<close>
  | Entries "jw_source list list"    \<comment> \<open>an array of entries, each given by its \<^verbatim>\<open>sources\<close>\<close>

record jw_config =
  playlist :: "playlist_value option"   \<comment> \<open>\<open>None\<close>: the key is not in the object\<close>

record page_doc =
  d_title :: string               \<comment> \<open>text of the first \<^verbatim>\<open>article > div.post_content > h1 > a\<close>\<close>
  d_iframes :: "string list"      \<comment> \<open>\<^verbatim>\<open>src\<close> of each \<^verbatim>\<open>iframe[src^="https://vhost"]\<close>\<close>
  d_jwVideo :: "string list"      \<comment> \<open>\<^verbatim>\<open>src\<close> of each \<^verbatim>\<open>script[src^="//content.jwplatform.com/players/"]\<close>\<close>

record video_attributes =
  a_src :: string
  a_label :: string

record iframe_doc =
  d_sources :: "video_attributes list"   \<comment> \<open>the \<^verbatim>\<open>video > source\<close> elements\<close>
  d_tracks :: "string list"              \<comment> \<open>\<^verbatim>\<open>src\<close> of the \<^verbatim>\<open>video > track\<close> elements that have one\<close>

datatype feed_response =
    FeedFailure string               \<comment> \<open>the parser's \<^verbatim>\<open>error\<close> event\<close>
  | Feed string "string list"        \<comment> \<open>\<^verbatim>\<open>meta.title\<close> and the links of the items, in feed order\<close>

record lib =
  JSON_parse :: "string \<Rightarrow> js_error + jw_config"
  parseInt :: "string \<Rightarrow> js_num"
  sanitize :: "string \<Rightarrow> string"
  FuzzySet_get :: "string list \<Rightarrow> string \<Rightarrow> (rat \<times> string) list option"
  localeCompare :: "string \<Rightarrow> string \<Rightarrow> int"
  shellEscape :: "string list \<Rightarrow> string"
  basename :: "string \<Rightarrow> string"
  load_page :: "string \<Rightarrow> page_doc"
  load_iframe :: "string \<Rightarrow> iframe_doc"

record net =
  http_get :: "request list \<Rightarrow> string \<Rightarrow> js_error + string"
  http_head :: "request list \<Rightarrow> string \<Rightarrow> js_error + (string \<rightharpoonup> string)"
  feed_get :: "request list \<Rightarrow> string \<Rightarrow> feed_response"
  tvdb_get :: "request list \<Rightarrow> int \<Rightarrow> js_error + episode list"

record state =
  tvdb :: "int \<rightharpoonup> episode list"     \<comment> \<open>\<^verbatim>\<open>CACHE.tvdb\<close>\<close>
  pages :: "string \<rightharpoonup> page"          \<comment> \<open>\<^verbatim>\<open>CACHE.pages\<close>\<close>
  fuzzyset :: "string \<rightharpoonup> string list" \<comment> \<open>\<^verbatim>\<open>SHOWS[show].fuzzyset\<close>: the names it was built from\<close>
  requests :: "request list"

definition sent :: "request \<Rightarrow> state \<Rightarrow> state" where
  "sent r st = st\<lparr>requests := requests st @ [r]\<rparr>"

subsection \<open>The size probe\<close>

definition getFileSize :: "lib \<Rightarrow> net \<Rightarrow> string \<Rightarrow> state \<Rightarrow> (js_error + js_num) \<times> state" where
  "getFileSize L W url st =
     (case http_head W (requests st) url of
        Inl e \<Rightarrow> (Inl e, sent (HttpHead url) st)
      | Inr headers \<Rightarrow>
          (case headers ''content-length'' of
             None \<Rightarrow> (Inr (Num 0), sent (HttpHead url) st)
           | Some len \<Rightarrow> (Inr (parseInt L len), sent (HttpHead url) st)))"

subsection \<open>The player configuration\<close>

fun startsWith :: "string \<Rightarrow> string \<Rightarrow> bool" where
  "startsWith s [] = True"
| "startsWith [] (p # ps) = False"
| "startsWith (c # cs) (p # ps) = (c = p \<and> startsWith cs ps)"

text \<open>
  \<^verbatim>\<open>/var jwConfig = ({[\s\S]*}); \/\/ end config/m\<close> finds the leftmost
  \<^verbatim>\<open>var jwConfig = {\<close> after which \<^verbatim>\<open>}; // end config\<close> occurs; the star is greedy, so
  the group runs to the last such occurrence. \<open>lastIndexOf s p\<close> is the greatest position
  of \<open>p\<close> in \<open>s\<close>.
\<close>

definition config_open :: string where
  "config_open = ''var jwConfig = {''"

definition config_close :: string where
  "config_close = ''}; // end config''"

fun lastIndexOf :: "string \<Rightarrow> string \<Rightarrow> nat option" where
  "lastIndexOf [] p = (if p = [] then Some 0 else None)"
| "lastIndexOf (c # cs) p =
     (case lastIndexOf cs p of
        Some i \<Rightarrow> Some (Suc i)
      | None \<Rightarrow> if startsWith (c # cs) p then Some 0 else None)"

definition configRegex_at :: "string \<Rightarrow> string option" where
  "configRegex_at s =
     (if startsWith s config_open then
        (case lastIndexOf (drop (length config_open) s) config_close of
           None \<Rightarrow> None
         | Some i \<Rightarrow> Some (''{'' @ take i (drop (length config_open) s) @ ''}''))
      else None)"

text \<open>\<open>configMatch content\<close> is group 1 of \<^verbatim>\<open>content.match(configRegex)\<close>, \<open>None\<close> for \<^verbatim>\<open>null\<close>.\<close>

fun configMatch :: "string \<Rightarrow> string option" where
  "configMatch [] = configRegex_at []"
| "configMatch (c # cs) =
     (case configRegex_at (c # cs) of
        Some g \<Rightarrow> Some g
      | None \<Rightarrow> configMatch cs)"

definition getJWConfig :: "lib \<Rightarrow> string \<Rightarrow> js_error + jw_config" where
  "getJWConfig L content =
     (case configMatch content of
        None \<Rightarrow> Inl TypeError
      | Some g \<Rightarrow> JSON_parse L g)"

subsection \<open>Extraction from the player script\<close>

text \<open>
  The loop over the reversed sources; the pair is \<^verbatim>\<open>page.videos\<close> (\<^verbatim>\<open>HD\<close>, \<^verbatim>\<open>SD\<close>).
  \<^verbatim>\<open>break\<close> returns at once.
\<close>

fun scanSources ::
  "lib \<Rightarrow> net \<Rightarrow> jw_source list \<Rightarrow> video option \<times> video option \<Rightarrow> state
    \<Rightarrow> (js_error + video option \<times> video option) \<times> state" where
  "scanSources L W [] videos st = (Inr videos, st)"
| "scanSources L W (source # rest) videos st =
     (if s_type source = ''hls'' then scanSources L W rest videos st
      else
        (case getFileSize L W (''https:'' @ s_file source) st of
           (Inl e, st') \<Rightarrow> (Inl e, st')
         | (Inr sz, st') \<Rightarrow>
             (let video = \<lparr>v_src = ''https:'' @ s_file source,
                           v_label = (if s_width source = 720 then ''HD'' else ''SD''),
                           v_size = sz\<rparr>
              in if s_width source = 720 then scanSources L W rest (Some video, snd videos) st'
                 else if s_width source = 480 then (Inr (fst videos, Some video), st')
                 else scanSources L W rest videos st')))"

definition getVideosFromJWPlayer ::
  "lib \<Rightarrow> net \<Rightarrow> string \<Rightarrow> string \<Rightarrow> string \<Rightarrow> state \<Rightarrow> (js_error + page) \<times> state" where
  "getVideosFromJWPlayer L W title pageUrl sourceUrl st =
     (case http_get W (requests st) sourceUrl of
        Inl e \<Rightarrow> (Inl e, sent (HttpGet sourceUrl) st)
      | Inr response \<Rightarrow>
          (case getJWConfig L response of
             Inl e \<Rightarrow> (Inl e, sent (HttpGet sourceUrl) st)
           | Inr config \<Rightarrow>
               (case playlist config of
                  None \<Rightarrow> (Inl (Thrown ''No playlist found!''), sent (HttpGet sourceUrl) st)
                | Some Falsy \<Rightarrow> (Inl (Thrown ''Playlist empty!''), sent (HttpGet sourceUrl) st)
                | Some (Entries []) \<Rightarrow> (Inl TypeError, sent (HttpGet sourceUrl) st)
                | Some (Entries (sources # _)) \<Rightarrow>
                    (case scanSources L W (rev sources) (None, None) (sent (HttpGet sourceUrl) st) of
                       (Inl e, st') \<Rightarrow> (Inl e, st')
                     | (Inr videos, st') \<Rightarrow>
                         (Inr \<lparr>p_pageUrl = pageUrl, p_sourceUrl = sourceUrl, p_title = title,
                               p_HD = fst videos, p_SD = snd videos, p_subtitles = None,
                               p_show = None, p_renamed = None\<rparr>, st')))))"

subsection \<open>Extraction from the iframe\<close>

text \<open>\<open>getIframeVideosOfQuality\<close> returns what it assigns to \<^verbatim>\<open>page.videos[quality]\<close>, if anything.\<close>

definition getIframeVideosOfQuality ::
  "lib \<Rightarrow> net \<Rightarrow> video_attributes list \<Rightarrow> string \<Rightarrow> string \<Rightarrow> state
    \<Rightarrow> (js_error + video option) \<times> state" where
  "getIframeVideosOfQuality L W videoAttributes sourceUrl quality st =
     (case filter (\<lambda>v. a_label v = quality) videoAttributes of
        [] \<Rightarrow> (Inr None, st)
      | [v] \<Rightarrow>
          (case getFileSize L W (a_src v) st of
             (Inl e, st') \<Rightarrow> (Inl e, st')
           | (Inr sz, st') \<Rightarrow> (Inr (Some \<lparr>v_src = a_src v, v_label = a_label v, v_size = sz\<rparr>), st'))
      | _ \<Rightarrow> (Inl (Thrown (''More than one '' @ quality @ '' video found: '' @ sourceUrl)), st))"

definition getVideosFromIframe ::
  "lib \<Rightarrow> net \<Rightarrow> string \<Rightarrow> string \<Rightarrow> string \<Rightarrow> state \<Rightarrow> (js_error + page) \<times> state" where
  "getVideosFromIframe L W title pageUrl sourceUrl st =
     (case http_get W (requests st) sourceUrl of
        Inl e \<Rightarrow> (Inl e, sent (HttpGet sourceUrl) st)
      | Inr response \<Rightarrow>
          (let videoAttributes = d_sources (load_iframe L response);
               subtitles = d_tracks (load_iframe L response)
           in case getIframeVideosOfQuality L W videoAttributes sourceUrl ''SD''
                     (sent (HttpGet sourceUrl) st) of
                (Inl e, st1) \<Rightarrow> (Inl e, st1)
              | (Inr sdVideo, st1) \<Rightarrow>
                  (case getIframeVideosOfQuality L W videoAttributes sourceUrl ''HD'' st1 of
                     (Inl e, st2) \<Rightarrow> (Inl e, st2)
                   | (Inr hdVideo, st2) \<Rightarrow>
                       (Inr \<lparr>p_pageUrl = pageUrl, p_sourceUrl = sourceUrl, p_title = title,
                             p_HD = hdVideo, p_SD = sdVideo,
                             p_subtitles = (case subtitles of [] \<Rightarrow> None | t # _ \<Rightarrow> Some t),
                             p_show = None, p_renamed = None\<rparr>, st2))))"

subsection \<open>The extractor\<close>

definition cache_page :: "string \<Rightarrow> page \<Rightarrow> state \<Rightarrow> state" where
  "cache_page pageUrl p st = st\<lparr>pages := (pages st)(pageUrl \<mapsto> p)\<rparr>"

definition getPageVideos :: "lib \<Rightarrow> net \<Rightarrow> string \<Rightarrow> state \<Rightarrow> (js_error + page) \<times> state" where
  "getPageVideos L W pageUrl st =
     (case pages st pageUrl of
        Some p \<Rightarrow> (Inr p, st)
      | None \<Rightarrow>
          (case http_get W (requests st) pageUrl of
             Inl e \<Rightarrow> (Inl e, sent (HttpGet pageUrl) st)
           | Inr response \<Rightarrow>
               (let title = d_title (load_page L response);
                    iframes = d_iframes (load_page L response);
                    jwVideo = d_jwVideo (load_page L response);
                    st0 = sent (HttpGet pageUrl) st
                in if length iframes = 1 then
                     (case getVideosFromIframe L W title pageUrl (hd iframes) st0 of
                        (Inl e, st') \<Rightarrow> (Inl e, st')
                      | (Inr p, st') \<Rightarrow> (Inr p, cache_page pageUrl p st'))
                   else if length iframes > 1 then
                     (Inl (Thrown (''Found more than one matching iframe: '' @ pageUrl)), st0)
                   else if length jwVideo = 1 then
                     (case getVideosFromJWPlayer L W title pageUrl (''https:'' @ hd jwVideo) st0 of
                        (Inl e, st') \<Rightarrow> (Inl e, st')
                      | (Inr p, st') \<Rightarrow> (Inr p, cache_page pageUrl p st'))
                   else if length jwVideo > 1 then
                     (Inl (Thrown (''Found more than one JW Player <video> tag! '' @ pageUrl)), st0)
                   else
                     (Inl (Thrown (''Couldn't find a JW Player <video> tag! '' @ pageUrl)), st0))))"

subsection \<open>Strings and numbers\<close>

text \<open>\<open>toString\<close> is the decimal form JavaScript gives an integer in a template or a \<^verbatim>\<open>+\<close>.\<close>

function digits :: "int \<Rightarrow> string" where
  "digits n = (if n < 10 then [char_of (48 + n)] else digits (n div 10) @ [char_of (48 + n mod 10)])"
  by pat_completeness auto

termination
  by (relation "measure nat") auto

declare digits.simps [simp del]

definition toString :: "int \<Rightarrow> string" where
  "toString i = (if i < 0 then ''-'' @ digits (- i) else digits i)"

definition replaceAll :: "char \<Rightarrow> string \<Rightarrow> string \<Rightarrow> string" where
  "replaceAll c r s = concat (map (\<lambda>x. if x = c then r else [x]) s)"

definition right_quote :: string where    \<comment> \<open>U+2019\<close>
  "right_quote = [CHR 0xE2, CHR 0x80, CHR 0x99]"

definition en_dash :: string where        \<comment> \<open>U+2013\<close>
  "en_dash = [CHR 0xE2, CHR 0x80, CHR 0x93]"

definition em_dash :: string where        \<comment> \<open>U+2014\<close>
  "em_dash = [CHR 0xE2, CHR 0x80, CHR 0x94]"

text \<open>\<^verbatim>\<open>title.replace(/\<close>U+2019\<^verbatim>\<open>/g, "'")\<close>\<close>

fun normalizeQuotes :: "string \<Rightarrow> string" where
  "normalizeQuotes [] = []"
| "normalizeQuotes (c # cs) =
     (if startsWith (c # cs) right_quote then CHR 0x27 # normalizeQuotes (drop 2 cs)
      else c # normalizeQuotes cs)"

subsection \<open>The shows\<close>

record show_descriptor =
  sh_name :: string
  sh_tvdb_id :: "int option"

definition SHOWS :: "(string \<times> show_descriptor) list" where
  "SHOWS =
    [(''alaska-week'', \<lparr>sh_name = ''Alaska Week'', sh_tvdb_id = None\<rparr>),
     (''california-missions'', \<lparr>sh_name = ''California Missions'', sh_tvdb_id = None\<rparr>),
     (''californias-communities'', \<lparr>sh_name = ''California's Communities'', sh_tvdb_id = None\<rparr>),
     (''californias-gold'', \<lparr>sh_name = ''California's Gold'', sh_tvdb_id = Some 279999\<rparr>),
     (''californias-golden-coast'', \<lparr>sh_name = ''California's Golden Coast'', sh_tvdb_id = Some 282164\<rparr>),
     (''californias-golden-fairs'', \<lparr>sh_name = ''California's Golden Fairs'', sh_tvdb_id = Some 281267\<rparr>),
     (''californias-golden-parks'', \<lparr>sh_name = ''California's Golden Parks'', sh_tvdb_id = Some 282166\<rparr>),
     (''californias-green'', \<lparr>sh_name = ''California's Green'', sh_tvdb_id = None\<rparr>),
     (''californias-water'', \<lparr>sh_name = ''California's Water'', sh_tvdb_id = None\<rparr>),
     (''crossroads'', \<lparr>sh_name = ''Crossroads'', sh_tvdb_id = None\<rparr>),
     (''downtown'', \<lparr>sh_name = ''Downtown'', sh_tvdb_id = None\<rparr>),
     (''our-neighborhoods'', \<lparr>sh_name = ''Our Neighborhoods'', sh_tvdb_id = None\<rparr>),
     (''palm-springs-week'', \<lparr>sh_name = ''Palm Springs Week'', sh_tvdb_id = None\<rparr>),
     (''road-trip'', \<lparr>sh_name = ''Road Trip'', sh_tvdb_id = None\<rparr>),
     (''specials'', \<lparr>sh_name = ''Specials'', sh_tvdb_id = None\<rparr>),
     (''the-bench'', \<lparr>sh_name = ''The Bench'', sh_tvdb_id = None\<rparr>),
     (''visiting'', \<lparr>sh_name = ''Visiting'', sh_tvdb_id = None\<rparr>)]"

definition categoryFeedUrl :: "string \<Rightarrow> string" where
  "categoryFeedUrl showName =
     ''https://blogs.chapman.edu/huell-howser-archives/category/'' @ showName @ ''/feed/atom/''"

definition feedPageUrl :: "string \<Rightarrow> nat \<Rightarrow> string" where
  "feedPageUrl feedUrl pageNumber = feedUrl @ ''?paged='' @ toString (int pageNumber)"

subsection \<open>The episode resolver\<close>

definition getTVDBEpisodes :: "net \<Rightarrow> int \<Rightarrow> state \<Rightarrow> (js_error + episode list) \<times> state" where
  "getTVDBEpisodes W seasonId st =
     (case tvdb st seasonId of
        Some cached \<Rightarrow> (Inr cached, st)
      | None \<Rightarrow>
          (case tvdb_get W (requests st) seasonId of
             Inl e \<Rightarrow> (Inl e, sent (TvdbGet seasonId) st)
           | Inr response \<Rightarrow>
               (Inr response, (sent (TvdbGet seasonId) st)\<lparr>tvdb := (tvdb st)(seasonId \<mapsto> response)\<rparr>)))"

definition episodePadding :: "int \<Rightarrow> string" where
  "episodePadding number = (if number < 10 then ''0'' @ toString number else toString number)"

text \<open>
  The pattern \<^verbatim>\<open>" ?[-\<close>U+2013 U+2014\<^verbatim>\<open>] ?" + showName + '( \\(\\d+\\))?'\<close>. No name of \<open>SHOWS\<close>
  has a character that is special in a regular expression, so the name matches itself.
  Each function returns what is left of the input after the part it matched; where the
  matcher has a choice, the list gives the alternatives in the order it tries them.
\<close>

definition stripPrefix :: "string \<Rightarrow> string \<Rightarrow> string option" where
  "stripPrefix p s = (if startsWith s p then Some (drop (length p) s) else None)"

definition optionalSpace :: "string \<Rightarrow> string list" where
  "optionalSpace s = (if startsWith s '' '' then [drop 1 s, s] else [s])"

definition dash :: "string \<Rightarrow> string list" where
  "dash s = List.map_filter (\<lambda>d. stripPrefix d s) [''-'', en_dash, em_dash]"

definition isDigit :: "char \<Rightarrow> bool" where
  "isDigit c = (c \<in> set ''0123456789'')"

definition optionalNumber :: "string \<Rightarrow> string" where
  "optionalNumber s =
     (case stripPrefix '' ('' s of
        None \<Rightarrow> s
      | Some r \<Rightarrow>
          if takeWhile isDigit r \<noteq> [] \<and> startsWith (dropWhile isDigit r) '')''
          then drop 1 (dropWhile isDigit r) else s)"

definition showNamePattern_at :: "string \<Rightarrow> string \<Rightarrow> string option" where
  "showNamePattern_at showName s =
     (case concat (map (\<lambda>s1. concat (map (\<lambda>s2. concat (map (\<lambda>s3.
                   (case stripPrefix showName s3 of None \<Rightarrow> [] | Some s4 \<Rightarrow> [optionalNumber s4]))
                 (optionalSpace s2))) (dash s1))) (optionalSpace s)) of
        [] \<Rightarrow> None
      | r # _ \<Rightarrow> Some r)"

text \<open>\<^verbatim>\<open>s.replace(showNamePattern, '')\<close>: the leftmost match is removed, nothing else.\<close>

fun removeShowName :: "string \<Rightarrow> string \<Rightarrow> string" where
  "removeShowName showName [] = []"
| "removeShowName showName (c # cs) =
     (case showNamePattern_at showName (c # cs) of
        Some r \<Rightarrow> r
      | None \<Rightarrow> c # removeShowName showName cs)"

text \<open>The value of the literal \<^verbatim>\<open>0.7\<close>: the double nearest to seven tenths, just below it.\<close>

definition js_0_7 :: rat where
  "js_0_7 = 3152519739159347 / 4503599627370496"

text \<open>Lines 360 to 370: the catalog episode chosen for the first fuzzy match.\<close>

definition chooseMatch :: "episode list \<Rightarrow> string \<Rightarrow> rat \<times> string \<Rightarrow> episode option" where
  "chooseMatch episodes name firstMatch =
     (if fst firstMatch < js_0_7 then
        find (\<lambda>e. startsWith (episodeName e) name) episodes
      else
        find (\<lambda>e. episodeName e = snd firstMatch) episodes)"

text \<open>
  Lines 349 to 353: the names the index of the show is built from, once; later calls
  find the index on the descriptor.
\<close>

definition fuzzyNames :: "state \<Rightarrow> string \<Rightarrow> episode list \<Rightarrow> string list" where
  "fuzzyNames st showKey episodes =
     (case fuzzyset st showKey of
        None \<Rightarrow> map episodeName episodes
      | Some built \<Rightarrow> built)"

text \<open>
  Lines 372 to 395: the file name, from the scraped name and the catalog episode found
  for it, if any (\<open>None\<close>: \<^verbatim>\<open>match\<close> is \<^verbatim>\<open>undefined\<close>, or there was no fuzzy match at all).
\<close>

definition fileName :: "lib \<Rightarrow> string \<Rightarrow> string \<Rightarrow> string \<Rightarrow> episode option \<Rightarrow> string" where
  "fileName L showKey showName scraped match =
     (let outputPath = ''videos/'' @ showKey @ ''/'';
          showDotted = replaceAll (CHR '' '') ''.'' showName;
          name = (case match of None \<Rightarrow> scraped | Some m \<Rightarrow> episodeName m);
          episodeNumber =
            (case match of
               None \<Rightarrow> ''.''
             | Some m \<Rightarrow> ''.S'' @ episodePadding (airedSeason m)
                          @ ''E'' @ episodePadding (airedEpisodeNumber m) @ ''.'');
          dotted = replaceAll (CHR ''&'') ''and''
                     (replaceAll CHR 0x27 [] (replaceAll (CHR '' '') ''.'' name))
      in outputPath @ sanitize L (replaceAll CHR 0x27 [] showDotted @ episodeNumber @ dotted)
         @ ''.mp4'')"

definition renameEpisode :: "lib \<Rightarrow> net \<Rightarrow> page \<Rightarrow> state \<Rightarrow> (js_error + string) \<times> state" where
  "renameEpisode L W page st =
     (case p_show page of
        None \<Rightarrow> (Inl TypeError, st)
      | Some showKey \<Rightarrow>
     (case map_of SHOWS showKey of
        None \<Rightarrow> (Inl TypeError, st)
      | Some descriptor \<Rightarrow>
          (let showName = sh_name descriptor;
               name = removeShowName showName (normalizeQuotes (p_title page))
           in case sh_tvdb_id descriptor of
                None \<Rightarrow> (Inr (fileName L showKey showName name None), st)
              | Some seriesId \<Rightarrow>
                  (case getTVDBEpisodes W seriesId st of
                     (Inl e, st1) \<Rightarrow> (Inl e, st1)
                   | (Inr response, st1) \<Rightarrow>
                       (let episodes = filter (\<lambda>e. episodeName e \<noteq> []) response;
                            names = fuzzyNames st1 showKey episodes;
                            st2 = st1\<lparr>fuzzyset := (fuzzyset st1)(showKey \<mapsto> names)\<rparr>
                        in case FuzzySet_get L names name of
                             None \<Rightarrow> (Inr (fileName L showKey showName name None), st2)
                           | Some [] \<Rightarrow> (Inl TypeError, st2)
                           | Some (firstMatch # _) \<Rightarrow>
                               (Inr (fileName L showKey showName name
                                       (chooseMatch episodes name firstMatch)), st2))))))"

subsection \<open>The manifest\<close>

text \<open>\<^verbatim>\<open>'HD' in page.videos ? 'HD' : 'SD'\<close>, then \<^verbatim>\<open>page.videos[quality]\<close>; \<open>None\<close> is \<^verbatim>\<open>undefined\<close>.\<close>

definition bestVideo :: "page \<Rightarrow> video option" where
  "bestVideo page = (case p_HD page of Some v \<Rightarrow> Some v | None \<Rightarrow> p_SD page)"

definition formatCurlParameters :: "page \<Rightarrow> string \<Rightarrow> js_error + string list" where
  "formatCurlParameters page renamed =
     (case bestVideo page of
        None \<Rightarrow> Inl TypeError
      | Some video \<Rightarrow> Inr [v_src video, ''--create-dirs'', ''-k'', ''-o'', renamed])"

definition ffmpegArguments :: "video \<Rightarrow> string \<Rightarrow> string \<Rightarrow> string list" where
  "ffmpegArguments video subtitles renamed =
     [''-hide_banner'', ''-n'', ''-i'', v_src video, ''-fix_sub_duration'', ''-i'', subtitles,
      ''-map'', ''0:v'', ''-map'', ''0:a'', ''-c'', ''copy'', ''-map'', ''1'',
      ''-c:s:0'', ''mov_text'', ''-metadata:s:s:0'', ''language=eng'',
      ''-disposition:s:0'', ''default'', ''-metadata:s:v:0'', ''handler=English'',
      ''-metadata:s:a:0'', ''handler=English'', ''-metadata:s:s:0'', ''handler=English'',
      renamed]"

text \<open>
  The body of the loop over \<^verbatim>\<open>videos.entries()\<close>: the two commands of one page,
  \<open>index\<close> counted from 0.
\<close>

definition pageCommands :: "lib \<Rightarrow> nat \<Rightarrow> nat \<Rightarrow> page \<Rightarrow> js_error + string list" where
  \<open>pageCommands L index videosLength page =
     (case p_renamed page of
        None \<Rightarrow> Inl TypeError
      | Some renamed \<Rightarrow>
          (let echo = ''echo "['' @ toString (int index + 1) @ ''/'' @ toString (int videosLength)
                      @ '']: '' @ basename L renamed @ ''"''
           in if p_subtitles page \<noteq> None \<and> p_subtitles page \<noteq> Some [] then
                (case bestVideo page of
                   None \<Rightarrow> Inl TypeError
                 | Some video \<Rightarrow>
                     Inr [echo, ''ffmpeg '' @ shellEscape L
                            (ffmpegArguments video (case p_subtitles page of Some t \<Rightarrow> t | None \<Rightarrow> [])
                               renamed)])
              else
                (case formatCurlParameters page renamed of
                   Inl e \<Rightarrow> Inl e
                 | Inr parameters \<Rightarrow> Inr [echo, ''curl '' @ shellEscape L parameters])))\<close>

fun emitCommands :: "lib \<Rightarrow> nat \<Rightarrow> nat \<Rightarrow> page list \<Rightarrow> js_error + string list" where
  "emitCommands L index videosLength [] = Inr []"
| "emitCommands L index videosLength (page # rest) =
     (case pageCommands L index videosLength page of
        Inl e \<Rightarrow> Inl e
      | Inr commands \<Rightarrow>
          (case emitCommands L (index + 1) videosLength rest of
             Inl e \<Rightarrow> Inl e
           | Inr others \<Rightarrow> Inr (commands @ others)))"

text \<open>
  \<^verbatim>\<open>Array.prototype.sort\<close> is stable, and with a consistent comparator every stable sort
  gives the list that insertion from the right gives. What it does with an inconsistent
  comparator is left to the implementation and is not modelled.
\<close>

fun insertSorted :: "('a \<Rightarrow> 'a \<Rightarrow> int) \<Rightarrow> 'a \<Rightarrow> 'a list \<Rightarrow> 'a list" where
  "insertSorted cmp x [] = [x]"
| "insertSorted cmp x (y # ys) = (if cmp x y \<le> 0 then x # y # ys else y # insertSorted cmp x ys)"

definition sortBy :: "('a \<Rightarrow> 'a \<Rightarrow> int) \<Rightarrow> 'a list \<Rightarrow> 'a list" where
  "sortBy cmp xs = foldr (insertSorted cmp) xs []"

definition renamedOf :: "page \<Rightarrow> string" where
  "renamedOf page = (case p_renamed page of Some r \<Rightarrow> r | None \<Rightarrow> [])"

text \<open>The comparator \<^verbatim>\<open>(a, b) => a.renamed.localeCompare(b.renamed)\<close>.\<close>

definition byRenamed :: "lib \<Rightarrow> page \<Rightarrow> page \<Rightarrow> int" where
  "byRenamed L a b = localeCompare L (renamedOf a) (renamedOf b)"

text \<open>
  Lines 524 to 558: the sort and the commands. A page without \<^verbatim>\<open>renamed\<close> raises in the
  comparator (or, when it is the only page, in \<^verbatim>\<open>path.basename\<close>).
\<close>

definition generateCommands :: "lib \<Rightarrow> page list \<Rightarrow> js_error + string list" where
  "generateCommands L videos =
     (if \<exists>p \<in> set videos. p_renamed p = None then Inl TypeError
      else
        (case emitCommands L 0 (length videos) (sortBy (byRenamed L) videos) of
           Inl e \<Rightarrow> Inl e
         | Inr commands \<Rightarrow> Inr (''set -e'' # commands)))"

subsection \<open>The crawl\<close>

definition getFeedPageLinks ::
  "net \<Rightarrow> string \<Rightarrow> nat \<Rightarrow> state \<Rightarrow> (js_error + string list) \<times> state" where
  "getFeedPageLinks W showName pageNumber st =
     (case map_of SHOWS showName of
        None \<Rightarrow> (Inl TypeError, st)
      | Some _ \<Rightarrow>
          (let url = feedPageUrl (categoryFeedUrl showName) pageNumber
           in case feed_get W (requests st) url of
                FeedFailure message \<Rightarrow> (Inl (LibraryError message), sent (FeedGet url) st)
              | Feed title links \<Rightarrow>
                  if startsWith title ''Page not found''
                  then (Inl (Thrown ''Page not found''), sent (FeedGet url) st)
                  else (Inr links, sent (FeedGet url) st)))"

text \<open>
  The loop over the links of one feed page. The result is what was thrown, if anything,
  with \<^verbatim>\<open>videos\<close> and the state at that point. The page object is the one in the cache,
  so assigning \<^verbatim>\<open>page.show\<close> and \<^verbatim>\<open>page.renamed\<close> changes the cache entry too.
\<close>

fun crawlLinks ::
  "lib \<Rightarrow> net \<Rightarrow> string \<Rightarrow> string list \<Rightarrow> page list \<Rightarrow> state
    \<Rightarrow> js_error option \<times> page list \<times> state" where
  "crawlLinks L W showName [] videos st = (None, videos, st)"
| "crawlLinks L W showName (link # links) videos st =
     (case getPageVideos L W link st of
        (Inl e, st1) \<Rightarrow> (Some e, videos, st1)
      | (Inr fetched, st1) \<Rightarrow>
          (let page = fetched\<lparr>p_show := Some showName\<rparr>
           in case renameEpisode L W page (cache_page link page st1) of
                (Inl e, st2) \<Rightarrow> (Some e, videos, st2)
              | (Inr renamed, st2) \<Rightarrow>
                  (case bestVideo page of
                     None \<Rightarrow>
                       (Some TypeError, videos,
                        cache_page link (page\<lparr>p_renamed := Some renamed\<rparr>) st2)
                   | Some _ \<Rightarrow>
                       crawlLinks L W showName links (videos @ [page\<lparr>p_renamed := Some renamed\<rparr>])
                         (cache_page link (page\<lparr>p_renamed := Some renamed\<rparr>) st2))))"

text \<open>One turn of \<^verbatim>\<open>while (true)\<close>, up to \<^verbatim>\<open>pageNumber++\<close>.\<close>

definition crawlPage ::
  "lib \<Rightarrow> net \<Rightarrow> string \<Rightarrow> nat \<Rightarrow> page list \<Rightarrow> state \<Rightarrow> js_error option \<times> page list \<times> state" where
  "crawlPage L W showName pageNumber videos st =
     (case getFeedPageLinks W showName pageNumber st of
        (Inl e, st1) \<Rightarrow> (Some e, videos, st1)
      | (Inr links, st1) \<Rightarrow> crawlLinks L W showName links videos st1)"

text \<open>
  \<^verbatim>\<open>while (true)\<close>: the loop ends only by an exception, which the \<^verbatim>\<open>catch\<close> receives.
  \<open>None\<close> is a crawl that never ends.
\<close>

partial_function (option) crawlPages ::
  "lib \<Rightarrow> net \<Rightarrow> string \<Rightarrow> nat \<Rightarrow> page list \<Rightarrow> state \<Rightarrow> (js_error \<times> page list \<times> state) option" where
  "crawlPages L W showName pageNumber videos st =
     (case crawlPage L W showName pageNumber videos st of
        (Some e, videos1, st1) \<Rightarrow> Some (e, videos1, st1)
      | (None, videos1, st1) \<Rightarrow> crawlPages L W showName (pageNumber + 1) videos1 st1)"

declare crawlPages.simps [code]

record crawl_outcome =
  caught :: js_error                       \<comment> \<open>what the \<^verbatim>\<open>catch\<close> clause received\<close>
  cache_json :: state                      \<comment> \<open>the state when \<^verbatim>\<open>cache.json\<close> is written\<close>
  download_sh :: "js_error + string list"  \<comment> \<open>the commands written, or what the rest threw\<close>

definition crawlCategory :: "lib \<Rightarrow> net \<Rightarrow> string \<Rightarrow> state \<Rightarrow> crawl_outcome option" where
  "crawlCategory L W showName st =
     (case crawlPages L W showName 1 [] st of
        None \<Rightarrow> None
      | Some (e, videos, st1) \<Rightarrow>
          Some \<lparr>caught = e, cache_json = st1, download_sh = generateCommands L videos\<rparr>)"

subsection \<open>Notions used in the statements\<close>

text \<open>The state of a process started on an empty \<^verbatim>\<open>cache.json\<close>.\<close>

definition empty_state :: state where
  "empty_state = \<lparr>tvdb = Map.empty, pages = Map.empty, fuzzyset = Map.empty, requests = []\<rparr>"

text \<open>The feed pages requested so far, in order.\<close>

definition feedRequests :: "state \<Rightarrow> string list" where
  "feedRequests st = concat (map (\<lambda>r. case r of FeedGet u \<Rightarrow> [u] | _ \<Rightarrow> []) (requests st))"

text \<open>\<open>probed st st'\<close>: from \<open>st\<close> to \<open>st'\<close> nothing changed but the requests, none to the feed.\<close>

definition probed :: "state \<Rightarrow> state \<Rightarrow> bool" where
  "probed st st' \<longleftrightarrow>
     tvdb st' = tvdb st \<and> pages st' = pages st \<and> fuzzyset st' = fuzzyset st
     \<and> feedRequests st' = feedRequests st"

text \<open>\<open>crawlFor k\<close>: the first \<open>k\<close> turns of the loop, or fewer if one of them throws.\<close>

fun crawlFor ::
  "nat \<Rightarrow> lib \<Rightarrow> net \<Rightarrow> string \<Rightarrow> nat \<Rightarrow> page list \<Rightarrow> state \<Rightarrow> js_error option \<times> page list \<times> state" where
  "crawlFor 0 L W showName pageNumber videos st = (None, videos, st)"
| "crawlFor (Suc k) L W showName pageNumber videos st =
     (case crawlPage L W showName pageNumber videos st of
        (Some e, videos1, st1) \<Rightarrow> (Some e, videos1, st1)
      | (None, videos1, st1) \<Rightarrow> crawlFor k L W showName (pageNumber + 1) videos1 st1)"

text \<open>A page as the loop pushes it: renamed, and with a video to download.\<close>

definition complete :: "page \<Rightarrow> bool" where
  "complete page \<longleftrightarrow> p_renamed page \<noteq> None \<and> bestVideo page \<noteq> None"

text \<open>The sources the scan probes: all but the \<^verbatim>\<open>hls\<close> ones.\<close>

definition probes :: "jw_source list \<Rightarrow> request list" where
  "probes sources =
     map (\<lambda>s. HttpHead (''https:'' @ s_file s)) (filter (\<lambda>s. s_type s \<noteq> ''hls'') sources)"

text \<open>The content has the two markers of the configuration, in this order, apart.\<close>

definition hasConfigMarkers :: "string \<Rightarrow> bool" where
  "hasConfigMarkers content \<longleftrightarrow>
     (\<exists>before inside after. content = before @ config_open @ inside @ config_close @ after)"

text \<open>A comparator that is total and transitive, as \<^verbatim>\<open>sort\<close> expects it.\<close>

definition consistent :: "('a \<Rightarrow> 'a \<Rightarrow> int) \<Rightarrow> bool" where
  "consistent cmp \<longleftrightarrow>
     (\<forall>a b. cmp a b \<le> 0 \<or> cmp b a \<le> 0)
     \<and> (\<forall>a b c. cmp a b \<le> 0 \<and> cmp b c \<le> 0 \<longrightarrow> cmp a c \<le> 0)"

subsection \<open>A small network and library to run the program on\<close>

definition ascending :: "jw_source list" where
  "ascending =
     [\<lparr>s_type = ''hls'', s_file = ''//cdn/v.m3u8'', s_width = 0\<rparr>,
      \<lparr>s_type = ''mp4'', s_file = ''//cdn/v-320.mp4'', s_width = 320\<rparr>,
      \<lparr>s_type = ''mp4'', s_file = ''//cdn/v-480.mp4'', s_width = 480\<rparr>,
      \<lparr>s_type = ''mp4'', s_file = ''//cdn/v-720.mp4'', s_width = 720\<rparr>]"

definition descending :: "jw_source list" where
  "descending =
     [\<lparr>s_type = ''mp4'', s_file = ''//cdn/v-720.mp4'', s_width = 720\<rparr>,
      \<lparr>s_type = ''mp4'', s_file = ''//cdn/v-480.mp4'', s_width = 480\<rparr>]"

definition demo_JSON_parse :: "string \<Rightarrow> js_error + jw_config" where
  "demo_JSON_parse s =
     (if s = ''{ascending}'' then Inr \<lparr>playlist = Some (Entries [ascending])\<rparr>
      else if s = ''{descending}'' then Inr \<lparr>playlist = Some (Entries [descending])\<rparr>
      else if s = ''{}'' then Inr \<lparr>playlist = None\<rparr>
      else Inl (LibraryError ''SyntaxError''))"

definition demo_parseInt :: "string \<Rightarrow> js_num" where
  "demo_parseInt s =
     (if takeWhile isDigit s = [] then NaN
      else Num (foldl (\<lambda>n c. 10 * n + (of_char c - 48)) 0 (takeWhile isDigit s)))"

text \<open>The lexicographic order of the code units, as a comparator.\<close>

fun compareBytes :: "string \<Rightarrow> string \<Rightarrow> int" where
  "compareBytes [] [] = 0"
| "compareBytes [] (y # ys) = - 1"
| "compareBytes (x # xs) [] = 1"
| "compareBytes (x # xs) (y # ys) =
     (if (of_char x :: nat) < of_char y then - 1
      else if (of_char y :: nat) < of_char x then 1
      else compareBytes xs ys)"

text \<open>
  \<^verbatim>\<open>localeCompare\<close> on strings of ASCII letters, digits, \<^verbatim>\<open>-\<close>, \<^verbatim>\<open>.\<close> and \<^verbatim>\<open>/\<close>, in the
  default collation: the strings are compared without regard to case first, so that
  \<^verbatim>\<open>d\<close> comes before \<^verbatim>\<open>G\<close>; when they are equal up to case, the one with the lower-case
  letter at the first difference comes first.
\<close>

definition lower :: "char \<Rightarrow> char" where
  "lower c =
     (if 65 \<le> (of_char c :: int) \<and> (of_char c :: int) \<le> 90
      then char_of (of_char c + 32 :: int) else c)"

definition collate :: "string \<Rightarrow> string \<Rightarrow> int" where
  "collate a b =
     (if compareBytes (map lower a) (map lower b) \<noteq> 0
      then compareBytes (map lower a) (map lower b)
      else - compareBytes a b)"

fun joinWith :: "string \<Rightarrow> string list \<Rightarrow> string" where
  "joinWith sep [] = []"
| "joinWith sep [x] = x"
| "joinWith sep (x # y # ys) = x @ sep @ joinWith sep (y # ys)"

definition demo_basename :: "string \<Rightarrow> string" where
  "demo_basename s = rev (takeWhile (\<lambda>c. c \<noteq> CHR ''/'') (rev s))"

text \<open>
  The index offers the first name that begins as the query does, with score 1 for the
  query itself, \<^verbatim>\<open>0.7\<close> for a name the query is the beginning of, and \<^verbatim>\<open>0.6999\<close> otherwise.
\<close>

definition demo_FuzzySet_get :: "string list \<Rightarrow> string \<Rightarrow> (rat \<times> string) list option" where
  "demo_FuzzySet_get names query =
     (case filter (\<lambda>n. startsWith n (take 3 query)) names of
        [] \<Rightarrow> None
      | n # _ \<Rightarrow>
          Some [(if n = query then 1 else if startsWith n query then js_0_7 else 6999 / 10000, n)])"

definition faithful_title :: string where
  "faithful_title = ''Old Faithful '' @ en_dash @ '' California's Gold (112)''"

definition demo_load_page :: "string \<Rightarrow> page_doc" where
  "demo_load_page body =
     (if body = ''<both>'' then
        \<lparr>d_title = faithful_title, d_iframes = [''https://vhost/embed''],
         d_jwVideo = [''//content.jwplatform.com/players/ascending.js'']\<rparr>
      else if body = ''<player>'' then
        \<lparr>d_title = faithful_title, d_iframes = [],
         d_jwVideo = [''//content.jwplatform.com/players/descending.js'']\<rparr>
      else if body = ''<broken>'' then
        \<lparr>d_title = faithful_title, d_iframes = [],
         d_jwVideo = [''//content.jwplatform.com/players/broken.js'']\<rparr>
      else \<lparr>d_title = [], d_iframes = [], d_jwVideo = []\<rparr>)"

definition demo_load_iframe :: "string \<Rightarrow> iframe_doc" where
  "demo_load_iframe body =
     \<lparr>d_sources = [\<lparr>a_src = ''https://vhost/sd.mp4'', a_label = ''SD''\<rparr>,
                   \<lparr>a_src = ''https://vhost/hd.mp4'', a_label = ''HD''\<rparr>],
      d_tracks = []\<rparr>"

definition demo_lib :: lib where
  "demo_lib =
     \<lparr>JSON_parse = demo_JSON_parse, parseInt = demo_parseInt, sanitize = (\<lambda>s. s),
      FuzzySet_get = demo_FuzzySet_get, localeCompare = collate,
      shellEscape = joinWith '' '', basename = demo_basename,
      load_page = demo_load_page, load_iframe = demo_load_iframe\<rparr>"

definition demo_http_get :: "string \<Rightarrow> js_error + string" where
  "demo_http_get url =
     (if url = ''http://blog/both'' then Inr ''<both>''
      else if url = ''http://blog/player'' then Inr ''<player>''
      else if url = ''http://blog/broken'' then Inr ''<broken>''
      else if url = ''http://blog/none'' then Inr ''<none>''
      else if url = ''https://vhost/embed'' then Inr ''<video>''
      else if url = ''https://content.jwplatform.com/players/ascending.js''
        then Inr ''var jwConfig = {ascending}; // end config''
      else if url = ''https://content.jwplatform.com/players/descending.js''
        then Inr ''var jwConfig = {descending}; // end config''
      else if url = ''https://content.jwplatform.com/players/broken.js''
        then Inr ''window.jwplayer = {};''
      else Inl (LibraryError ''StatusCodeError: 404''))"

definition demo_episodes :: "episode list" where
  "demo_episodes =
     [\<lparr>episodeName = ''Big Trees'', airedSeason = 1, airedEpisodeNumber = 3\<rparr>,
      \<lparr>episodeName = [], airedSeason = 1, airedEpisodeNumber = 4\<rparr>,
      \<lparr>episodeName = ''Old Faithful'', airedSeason = 2, airedEpisodeNumber = 12\<rparr>]"

definition demo_net :: net where
  "demo_net =
     \<lparr>http_get = (\<lambda>history. demo_http_get),
      http_head = (\<lambda>history url.
         if url = ''https://vhost/sd.mp4'' then Inr Map.empty
         else Inr [''content-length'' \<mapsto> ''1000'']),
      feed_get = (\<lambda>history url.
         if url = feedPageUrl (categoryFeedUrl ''californias-gold'') 1
           then Feed ''California's Gold'' []
         else if url = feedPageUrl (categoryFeedUrl ''californias-gold'') 2
           then Feed ''California's Gold'' [''http://blog/both'']
         else Feed ''Page not found | Huell Howser Archives'' []),
      tvdb_get = (\<lambda>history seriesId.
         if seriesId = 279999 then Inr demo_episodes else Inl (LibraryError ''ETIMEDOUT''))\<rparr>"

text \<open>A resolved page of the show \<^verbatim>\<open>downtown\<close> with the given title and canonical name.\<close>

definition named_page :: "string \<Rightarrow> string \<Rightarrow> page" where
  "named_page title renamed =
     \<lparr>p_pageUrl = ''http://blog/page'', p_sourceUrl = ''https://vhost/embed'',
      p_title = title,
      p_HD = Some \<lparr>v_src = ''https://vhost/hd.mp4'', v_label = ''HD'', v_size = Num 1000\<rparr>,
      p_SD = None, p_subtitles = None, p_show = Some ''downtown'', p_renamed = Some renamed\<rparr>"

definition demo_page :: "string \<Rightarrow> string \<Rightarrow> page" where
  "demo_page showKey title =
     \<lparr>p_pageUrl = ''http://blog/both'', p_sourceUrl = ''https://vhost/embed'', p_title = title,
      p_HD = Some \<lparr>v_src = ''https://vhost/hd.mp4'', v_label = ''HD'', v_size = Num 1000\<rparr>,
      p_SD = Some \<lparr>v_src = ''https://vhost/sd.mp4'', v_label = ''SD'', v_size = Num 0\<rparr>,
      p_subtitles = None, p_show = Some showKey, p_renamed = None\<rparr>"

section \<open>Properties\<close>

subsection \<open>What the extraction functions leave unchanged\<close>

lemma sent_simps:
  "tvdb (sent r st) = tvdb st" "pages (sent r st) = pages st"
  "fuzzyset (sent r st) = fuzzyset st" "requests (sent r st) = requests st @ [r]"
  by (simp_all add: sent_def)

lemma feedRequests_sent:
  "feedRequests (sent (HttpGet u) st) = feedRequests st"
  "feedRequests (sent (HttpHead u) st) = feedRequests st"
  "feedRequests (sent (TvdbGet i) st) = feedRequests st"
  "feedRequests (sent (FeedGet u) st) = feedRequests st @ [u]"
  by (simp_all add: feedRequests_def sent_simps)

lemma probed_refl: "probed st st"
  by (simp add: probed_def)

lemma probed_trans: "probed st st1 \<Longrightarrow> probed st1 st2 \<Longrightarrow> probed st st2"
  by (simp add: probed_def)

lemma probed_sent_get: "probed st (sent (HttpGet u) st)"
  by (simp add: probed_def sent_simps feedRequests_sent)

lemma probed_sent_head: "probed st (sent (HttpHead u) st)"
  by (simp add: probed_def sent_simps feedRequests_sent)

lemma getFileSize_state: "snd (getFileSize L W url st) = sent (HttpHead url) st"
  by (simp add: getFileSize_def split: sum.split option.split)

lemma getFileSize_probed: "getFileSize L W url st = (r, st') \<Longrightarrow> probed st st'"
  using getFileSize_state [of L W url st] by (simp add: probed_sent_head)

lemma scanSources_probed: "scanSources L W sources videos st = (r, st') \<Longrightarrow> probed st st'"
proof (induction sources arbitrary: videos st)
  case Nil
  then show ?case by (simp add: probed_refl)
next
  case (Cons source rest)
  show ?case
  proof (cases "s_type source = ''hls''")
    case True
    then show ?thesis using Cons by simp
  next
    case False
    obtain r1 st1 where g: "getFileSize L W (''https:'' @ s_file source) st = (r1, st1)"
      by (cases "getFileSize L W (''https:'' @ s_file source) st")
    have p1: "probed st st1" using g by (rule getFileSize_probed)
    show ?thesis
      using False g p1 Cons.prems Cons.IH [where st = st1]
      by (cases videos) (auto simp: Let_def split: sum.splits if_splits intro: probed_trans)
  qed
qed

lemma getVideosFromJWPlayer_probed:
  "getVideosFromJWPlayer L W title pageUrl sourceUrl st = (r, st') \<Longrightarrow> probed st st'"
  unfolding getVideosFromJWPlayer_def
  by (auto split: sum.splits option.splits playlist_value.splits list.splits prod.splits
           intro: probed_sent_get probed_trans [OF probed_sent_get scanSources_probed])

lemma getIframeVideosOfQuality_probed:
  "getIframeVideosOfQuality L W attrs sourceUrl quality st = (r, st') \<Longrightarrow> probed st st'"
  unfolding getIframeVideosOfQuality_def
  by (auto split: list.splits sum.splits prod.splits intro: probed_refl getFileSize_probed)

lemma getVideosFromIframe_probed:
  "getVideosFromIframe L W title pageUrl sourceUrl st = (r, st') \<Longrightarrow> probed st st'"
  unfolding getVideosFromIframe_def Let_def
  by (auto split: sum.splits prod.splits
           intro: probed_sent_get probed_trans [OF probed_sent_get getIframeVideosOfQuality_probed]
                  probed_trans [OF probed_trans [OF probed_sent_get getIframeVideosOfQuality_probed]
                                   getIframeVideosOfQuality_probed])

lemma getPageVideos_failed_probed:
  "getPageVideos L W pageUrl st = (Inl e, st') \<Longrightarrow> probed st st'"
  unfolding getPageVideos_def Let_def
  by (auto split: option.splits sum.splits prod.splits if_splits
           intro: probed_sent_get probed_trans [OF probed_sent_get getVideosFromIframe_probed]
                  probed_trans [OF probed_sent_get getVideosFromJWPlayer_probed])

lemma getPageVideos_cached:
  "getPageVideos L W pageUrl st = (Inr p, st1) \<Longrightarrow> pages st1 pageUrl = Some p"
  by (auto simp: getPageVideos_def Let_def cache_page_def
           split: option.splits sum.splits prod.splits if_splits)

subsection \<open>The extractor and the two markers\<close>

text \<open>
  C1, counterexample. The page \<^verbatim>\<open>http://blog/both\<close> has one matching iframe and one
  player script. The extractor does not fail on it: it returns the page it read from the
  iframe and stores it in the cache.
\<close>

theorem getPageVideos_both_markers_counterexample:
  "length (d_iframes (load_page demo_lib ''<both>'')) = 1
   \<and> length (d_jwVideo (load_page demo_lib ''<both>'')) = 1
   \<and> http_get demo_net (requests empty_state) ''http://blog/both'' = Inr ''<both>''
   \<and> fst (getPageVideos demo_lib demo_net ''http://blog/both'' empty_state)
       = Inr ((demo_page [] faithful_title)\<lparr>p_show := None\<rparr>)
   \<and> pages (snd (getPageVideos demo_lib demo_net ''http://blog/both'' empty_state))
         ''http://blog/both''
       = Some ((demo_page [] faithful_title)\<lparr>p_show := None\<rparr>)"
  by code_simp

text \<open>
  C1, as amended. For a page that is not in the cache and whose document arrives:
  with neither marker the extractor fails with the message for a missing player; with
  exactly one matching iframe it returns what the extraction from the iframe returns,
  whatever player scripts the page has; with more than one matching iframe it fails.
  Whenever the extractor fails, for these or any other reason, the cache of pages is
  the one before the call.
\<close>

theorem getPageVideos_markers:
  "(pages st pageUrl = None \<and> http_get W (requests st) pageUrl = Inr response \<longrightarrow>
      (d_iframes (load_page L response) = [] \<and> d_jwVideo (load_page L response) = []
         \<longrightarrow> fst (getPageVideos L W pageUrl st)
             = Inl (Thrown (''Couldn't find a JW Player <video> tag! '' @ pageUrl)))
      \<and> (length (d_iframes (load_page L response)) = 1
         \<longrightarrow> fst (getPageVideos L W pageUrl st)
             = fst (getVideosFromIframe L W (d_title (load_page L response)) pageUrl
                      (hd (d_iframes (load_page L response))) (sent (HttpGet pageUrl) st)))
      \<and> (length (d_iframes (load_page L response)) > 1
         \<longrightarrow> fst (getPageVideos L W pageUrl st)
             = Inl (Thrown (''Found more than one matching iframe: '' @ pageUrl))))
   \<and> (\<forall>e. fst (getPageVideos L W pageUrl st) = Inl e
         \<longrightarrow> pages (snd (getPageVideos L W pageUrl st)) = pages st)"
proof (rule conjI)
  show "pages st pageUrl = None \<and> http_get W (requests st) pageUrl = Inr response \<longrightarrow>
      (d_iframes (load_page L response) = [] \<and> d_jwVideo (load_page L response) = []
         \<longrightarrow> fst (getPageVideos L W pageUrl st)
             = Inl (Thrown (''Couldn't find a JW Player <video> tag! '' @ pageUrl)))
      \<and> (length (d_iframes (load_page L response)) = 1
         \<longrightarrow> fst (getPageVideos L W pageUrl st)
             = fst (getVideosFromIframe L W (d_title (load_page L response)) pageUrl
                      (hd (d_iframes (load_page L response))) (sent (HttpGet pageUrl) st)))
      \<and> (length (d_iframes (load_page L response)) > 1
         \<longrightarrow> fst (getPageVideos L W pageUrl st)
             = Inl (Thrown (''Found more than one matching iframe: '' @ pageUrl)))"
    by (simp add: getPageVideos_def Let_def split: prod.split sum.split)
  show "\<forall>e. fst (getPageVideos L W pageUrl st) = Inl e
          \<longrightarrow> pages (snd (getPageVideos L W pageUrl st)) = pages st"
    using getPageVideos_failed_probed [of L W pageUrl st]
    by (cases "getPageVideos L W pageUrl st") (auto simp: probed_def)
qed

theorem getPageVideos_markers_witness:
  "pages empty_state ''http://blog/none'' = None
   \<and> http_get demo_net (requests empty_state) ''http://blog/none'' = Inr ''<none>''
   \<and> d_iframes (load_page demo_lib ''<none>'') = []
   \<and> d_jwVideo (load_page demo_lib ''<none>'') = []
   \<and> fst (getPageVideos demo_lib demo_net ''http://blog/none'' empty_state)
       = Inl (Thrown ''Couldn't find a JW Player <video> tag! http://blog/none'')
   \<and> pages (snd (getPageVideos demo_lib demo_net ''http://blog/none'' empty_state))
       = pages empty_state
   \<and> http_get demo_net (requests empty_state) ''http://blog/both'' = Inr ''<both>''
   \<and> d_iframes (load_page demo_lib ''<both>'') = [''https://vhost/embed'']
   \<and> d_jwVideo (load_page demo_lib ''<both>'') = [''//content.jwplatform.com/players/ascending.js'']
   \<and> fst (getPageVideos demo_lib demo_net ''http://blog/both'' empty_state)
       = fst (getVideosFromIframe demo_lib demo_net faithful_title ''http://blog/both''
                ''https://vhost/embed'' (sent (HttpGet ''http://blog/both'') empty_state))"
proof -
  have cache: "pages empty_state ''http://blog/none'' = None"
    "pages empty_state ''http://blog/both'' = None"
    by (simp_all add: empty_state_def)
  have none: "http_get demo_net (requests empty_state) ''http://blog/none'' = Inr ''<none>''"
    by (simp add: demo_net_def demo_http_get_def)
  have both: "http_get demo_net (requests empty_state) ''http://blog/both'' = Inr ''<both>''"
    by (simp add: demo_net_def demo_http_get_def)
  have markers: "d_iframes (load_page demo_lib ''<none>'') = []"
    "d_jwVideo (load_page demo_lib ''<none>'') = []"
    "d_iframes (load_page demo_lib ''<both>'') = [''https://vhost/embed'']"
    "d_jwVideo (load_page demo_lib ''<both>'')
     = [''//content.jwplatform.com/players/ascending.js'']"
    "d_title (load_page demo_lib ''<both>'') = faithful_title"
    by (simp_all add: demo_lib_def demo_load_page_def)
  show ?thesis
    using getPageVideos_markers
            [of empty_state "''http://blog/none''" demo_net "''<none>''" demo_lib]
          getPageVideos_markers
            [of empty_state "''http://blog/both''" demo_net "''<both>''" demo_lib]
          cache none both markers
    by simp
qed

subsection \<open>The size probe\<close>

text \<open>
  C8. When the response to the HEAD request arrives, \<open>getFileSize\<close> returns 0 if it has no
  \<^verbatim>\<open>content-length\<close> header and \<^verbatim>\<open>parseInt\<close> of the header if it has one; it does not fail.
\<close>

theorem getFileSize_content_length:
  assumes "http_head W (requests st) url = Inr headers"
  shows "(headers ''content-length'' = None \<longrightarrow> fst (getFileSize L W url st) = Inr (Num 0))
       \<and> (\<forall>len. headers ''content-length'' = Some len
             \<longrightarrow> fst (getFileSize L W url st) = Inr (parseInt L len))
       \<and> (\<forall>e. fst (getFileSize L W url st) \<noteq> Inl e)"
  using assms by (simp add: getFileSize_def split: option.split)

theorem getFileSize_content_length_witness:
  "http_head demo_net [] ''https://vhost/sd.mp4'' = Inr Map.empty
   \<and> fst (getFileSize demo_lib demo_net ''https://vhost/sd.mp4'' empty_state) = Inr (Num 0)
   \<and> http_head demo_net [] ''https://vhost/hd.mp4'' = Inr [''content-length'' \<mapsto> ''1000'']
   \<and> fst (getFileSize demo_lib demo_net ''https://vhost/hd.mp4'' empty_state)
       = Inr (parseInt demo_lib ''1000'')
   \<and> parseInt demo_lib ''1000'' = Num 1000"
proof -
  have a: "http_head demo_net (requests empty_state) ''https://vhost/sd.mp4'' = Inr Map.empty"
    by (simp add: demo_net_def)
  have b: "http_head demo_net (requests empty_state) ''https://vhost/hd.mp4''
           = Inr [''content-length'' \<mapsto> ''1000'']"
    by (simp add: demo_net_def)
  have c: "parseInt demo_lib ''1000'' = Num 1000"
    by code_simp
  show ?thesis
    using getFileSize_content_length [OF a, of demo_lib]
          getFileSize_content_length [OF b, of demo_lib] a b c
    by (simp add: empty_state_def)
qed

subsection \<open>The cache of pages\<close>

text \<open>
  C9. When \<open>getPageVideos\<close> has returned a page for a URL, that page is then in the
  cache of pages under the URL, and a second call for the URL returns the same page and
  leaves the state as it is, so it makes no request; it does not depend on the network
  or on the library either.
\<close>

theorem getPageVideos_idempotent:
  assumes "getPageVideos L W pageUrl st = (Inr p, st1)"
  shows "pages st1 pageUrl = Some p
       \<and> getPageVideos L' W' pageUrl st1 = (Inr p, st1)
       \<and> requests (snd (getPageVideos L' W' pageUrl st1)) = requests st1"
  using getPageVideos_cached [OF assms] by (simp add: getPageVideos_def)

theorem getPageVideos_idempotent_witness:
  "pages empty_state ''http://blog/player'' = None
   \<and> fst (getPageVideos demo_lib demo_net ''http://blog/player'' empty_state)
     = Inr \<lparr>p_pageUrl = ''http://blog/player'',
            p_sourceUrl = ''https://content.jwplatform.com/players/descending.js'',
            p_title = faithful_title, p_HD = None,
            p_SD = Some \<lparr>v_src = ''https://cdn/v-480.mp4'', v_label = ''SD'', v_size = Num 1000\<rparr>,
            p_subtitles = None, p_show = None, p_renamed = None\<rparr>
   \<and> pages (snd (getPageVideos demo_lib demo_net ''http://blog/player'' empty_state))
         ''http://blog/player''
     = Some \<lparr>p_pageUrl = ''http://blog/player'',
             p_sourceUrl = ''https://content.jwplatform.com/players/descending.js'',
             p_title = faithful_title, p_HD = None,
             p_SD = Some \<lparr>v_src = ''https://cdn/v-480.mp4'', v_label = ''SD'', v_size = Num 1000\<rparr>,
             p_subtitles = None, p_show = None, p_renamed = None\<rparr>
   \<and> getPageVideos demo_lib demo_net ''http://blog/player''
         (snd (getPageVideos demo_lib demo_net ''http://blog/player'' empty_state))
       = getPageVideos demo_lib demo_net ''http://blog/player'' empty_state"
proof -
  let ?p = "\<lparr>p_pageUrl = ''http://blog/player'',
            p_sourceUrl = ''https://content.jwplatform.com/players/descending.js'',
            p_title = faithful_title, p_HD = None,
            p_SD = Some \<lparr>v_src = ''https://cdn/v-480.mp4'', v_label = ''SD'', v_size = Num 1000\<rparr>,
            p_subtitles = None, p_show = None, p_renamed = None\<rparr>"
  let ?st1 = "snd (getPageVideos demo_lib demo_net ''http://blog/player'' empty_state)"
  have miss: "pages empty_state ''http://blog/player'' = None"
    by (simp add: empty_state_def)
  have page: "fst (getPageVideos demo_lib demo_net ''http://blog/player'' empty_state) = Inr ?p"
    by code_simp
  then have first: "getPageVideos demo_lib demo_net ''http://blog/player'' empty_state
                    = (Inr ?p, ?st1)"
    by (metis prod.collapse)
  have again: "pages ?st1 ''http://blog/player'' = Some ?p
               \<and> getPageVideos demo_lib demo_net ''http://blog/player'' ?st1 = (Inr ?p, ?st1)"
    using getPageVideos_idempotent [OF first, of demo_lib demo_net] by blast
  show ?thesis
    using again first page miss by simp
qed

subsection \<open>The configuration of the player\<close>

lemma startsWith_iff: "startsWith s p \<longleftrightarrow> (\<exists>r. s = p @ r)"
  by (induction s p rule: startsWith.induct) auto

lemma lastIndexOf_None: "lastIndexOf s p = None \<longleftrightarrow> \<not> (\<exists>a b. s = a @ p @ b)"
proof (induction s)
  case Nil
  show ?case by auto
next
  case (Cons c cs)
  have "(\<exists>a b. c # cs = a @ p @ b) \<longleftrightarrow> startsWith (c # cs) p \<or> (\<exists>a b. cs = a @ p @ b)"
  proof
    assume "\<exists>a b. c # cs = a @ p @ b"
    then obtain a b where ab: "c # cs = a @ p @ b" by blast
    show "startsWith (c # cs) p \<or> (\<exists>a b. cs = a @ p @ b)"
    proof (cases a)
      case Nil
      with ab show ?thesis by (auto simp: startsWith_iff)
    next
      case (Cons x a')
      with ab have "cs = a' @ p @ b" by simp
      then show ?thesis by blast
    qed
  next
    assume "startsWith (c # cs) p \<or> (\<exists>a b. cs = a @ p @ b)"
    then show "\<exists>a b. c # cs = a @ p @ b"
    proof
      assume "startsWith (c # cs) p"
      then obtain r where "c # cs = [] @ p @ r" by (auto simp: startsWith_iff)
      then show ?thesis by blast
    next
      assume "\<exists>a b. cs = a @ p @ b"
      then obtain a b where "cs = a @ p @ b" by blast
      then have "c # cs = (c # a) @ p @ b" by simp
      then show ?thesis by blast
    qed
  qed
  with Cons show ?case by (auto split: option.splits)
qed

lemma configRegex_at_None:
  "configRegex_at s = None
   \<longleftrightarrow> \<not> (\<exists>inside after. s = config_open @ inside @ config_close @ after)"
proof (cases "startsWith s config_open")
  case False
  then show ?thesis by (auto simp: configRegex_at_def startsWith_iff)
next
  case True
  then obtain r where r: "s = config_open @ r" by (auto simp: startsWith_iff)
  have "configRegex_at s = None \<longleftrightarrow> lastIndexOf r config_close = None"
    using True r by (simp add: configRegex_at_def split: option.split)
  also have "\<dots> \<longleftrightarrow> \<not> (\<exists>a b. r = a @ config_close @ b)"
    by (rule lastIndexOf_None)
  finally show ?thesis using r by simp
qed

lemma configMatch_None: "configMatch content = None \<longleftrightarrow> \<not> hasConfigMarkers content"
proof (induction content)
  case Nil
  show ?case
    by (simp add: configRegex_at_None hasConfigMarkers_def config_open_def)
next
  case (Cons c cs)
  have "hasConfigMarkers (c # cs)
        \<longleftrightarrow> (\<exists>inside after. c # cs = config_open @ inside @ config_close @ after)
            \<or> hasConfigMarkers cs"
  proof
    assume "hasConfigMarkers (c # cs)"
    then obtain b i a where m: "c # cs = b @ config_open @ i @ config_close @ a"
      by (auto simp: hasConfigMarkers_def)
    show "(\<exists>inside after. c # cs = config_open @ inside @ config_close @ after)
          \<or> hasConfigMarkers cs"
    proof (cases b)
      case Nil
      with m show ?thesis by auto
    next
      case (Cons x b')
      with m have "cs = b' @ config_open @ i @ config_close @ a" by simp
      then have "hasConfigMarkers cs" unfolding hasConfigMarkers_def by blast
      then show ?thesis by blast
    qed
  next
    assume "(\<exists>inside after. c # cs = config_open @ inside @ config_close @ after)
            \<or> hasConfigMarkers cs"
    then show "hasConfigMarkers (c # cs)"
    proof
      assume "\<exists>inside after. c # cs = config_open @ inside @ config_close @ after"
      then obtain i a where "c # cs = [] @ config_open @ i @ config_close @ a" by auto
      then show ?thesis unfolding hasConfigMarkers_def by blast
    next
      assume "hasConfigMarkers cs"
      then obtain b i a where "cs = b @ config_open @ i @ config_close @ a"
        by (auto simp: hasConfigMarkers_def)
      then have "c # cs = (c # b) @ config_open @ i @ config_close @ a" by simp
      then show ?thesis unfolding hasConfigMarkers_def by blast
    qed
  qed
  moreover have "configMatch (c # cs) = None
                 \<longleftrightarrow> configRegex_at (c # cs) = None \<and> configMatch cs = None"
    by (simp split: option.split)
  ultimately show ?case
    using Cons configRegex_at_None [of "c # cs"] by blast
qed

text \<open>
  C10. On a content without the two markers the match is \<^verbatim>\<open>null\<close> and \<open>getJWConfig\<close> raises
  a type error; so does \<open>getVideosFromJWPlayer\<close> when the script it fetched is such a
  content: its caller gets none of the strings the program throws.
\<close>

theorem getJWConfig_without_markers:
  assumes "\<not> hasConfigMarkers content"
  shows "configMatch content = None
       \<and> getJWConfig L content = Inl TypeError
       \<and> (http_get W (requests st) sourceUrl = Inr content
           \<longrightarrow> fst (getVideosFromJWPlayer L W title pageUrl sourceUrl st) = Inl TypeError
             \<and> (\<forall>message. fst (getVideosFromJWPlayer L W title pageUrl sourceUrl st)
                            \<noteq> Inl (Thrown message)))"
  using assms configMatch_None [of content]
  by (simp add: getJWConfig_def getVideosFromJWPlayer_def)

theorem getJWConfig_without_markers_witness:
  "\<not> hasConfigMarkers ''window.jwplayer = {};''
   \<and> getJWConfig demo_lib ''window.jwplayer = {};'' = Inl TypeError
   \<and> http_get demo_net (requests empty_state) ''https://content.jwplatform.com/players/broken.js''
       = Inr ''window.jwplayer = {};''
   \<and> fst (getVideosFromJWPlayer demo_lib demo_net faithful_title ''http://blog/broken''
             ''https://content.jwplatform.com/players/broken.js'' empty_state) = Inl TypeError
   \<and> fst (getPageVideos demo_lib demo_net ''http://blog/broken'' empty_state) = Inl TypeError"
proof -
  have "configMatch ''window.jwplayer = {};'' = None"
    by code_simp
  then have a: "\<not> hasConfigMarkers ''window.jwplayer = {};''"
    using configMatch_None [of "''window.jwplayer = {};''"] by blast
  have b: "http_get demo_net (requests empty_state)
             ''https://content.jwplatform.com/players/broken.js'' = Inr ''window.jwplayer = {};''"
    by code_simp
  have c: "fst (getPageVideos demo_lib demo_net ''http://blog/broken'' empty_state) = Inl TypeError"
    by code_simp
  show ?thesis
    using getJWConfig_without_markers
            [OF a, of demo_lib demo_net empty_state
               "''https://content.jwplatform.com/players/broken.js''"
               faithful_title "''http://blog/broken''"] a b c
    by simp
qed

subsection \<open>The scan of the sources\<close>

lemma getFileSize_succeeds:
  assumes "\<forall>history url. \<not> isl (http_head W history url)"
  shows "\<exists>sz. getFileSize L W url st = (Inr sz, sent (HttpHead url) st)"
proof -
  obtain headers where "http_head W (requests st) url = Inr headers"
    using assms [rule_format, of "requests st" url]
    by (cases "http_head W (requests st) url") auto
  then show ?thesis
    by (simp add: getFileSize_def split: option.split)
qed

lemma scanSources_cut:
  assumes "s_type sd \<noteq> ''hls''" and "s_width sd = 480"
  shows "scanSources L W (before @ sd # after) videos st
         = scanSources L W (before @ [sd]) videos st"
proof (induction before arbitrary: videos st)
  case Nil
  show ?case using assms by (simp add: Let_def split: prod.split sum.split)
next
  case (Cons s before)
  show ?case
    by (simp add: Let_def Cons.IH split: prod.split sum.split)
qed

lemma scanSources_until_sd:
  assumes ok: "\<forall>history url. \<not> isl (http_head W history url)"
    and sd: "s_type sd \<noteq> ''hls''" "s_width sd = 480"
    and before: "\<forall>s \<in> set before. s_type s \<noteq> ''hls'' \<longrightarrow> s_width s \<noteq> 480"
  shows "\<exists>h v st'. scanSources L W (before @ [sd]) videos st = (Inr (h, Some v), st')
           \<and> requests st' = requests st @ probes (before @ [sd])
           \<and> (fst videos \<noteq> None \<or> (\<exists>s \<in> set before. s_type s \<noteq> ''hls'' \<and> s_width s = 720)
                \<longrightarrow> h \<noteq> None)"
  using before
proof (induction before arbitrary: videos st)
  case Nil
  obtain sz where "getFileSize L W (''https:'' @ s_file sd) st
                   = (Inr sz, sent (HttpHead (''https:'' @ s_file sd)) st)"
    using getFileSize_succeeds [OF ok] by blast
  then show ?case
    using sd by (simp add: Let_def probes_def sent_def)
next
  case (Cons s before)
  show ?case
  proof (cases "s_type s = ''hls''")
    case True
    then show ?thesis
      using Cons.IH [of videos st] Cons.prems by (simp add: probes_def)
  next
    case False
    obtain sz where g: "getFileSize L W (''https:'' @ s_file s) st
                        = (Inr sz, sent (HttpHead (''https:'' @ s_file s)) st)"
      using getFileSize_succeeds [OF ok] by blast
    have w: "s_width s \<noteq> 480" using False Cons.prems by simp
    show ?thesis
    proof (cases "s_width s = 720")
      case True
      then show ?thesis
        using False g Cons.prems
          Cons.IH [of "(Some \<lparr>v_src = ''https:'' @ s_file s, v_label = ''HD'', v_size = sz\<rparr>,
                        snd videos)"
                      "sent (HttpHead (''https:'' @ s_file s)) st"]
        by (simp add: Let_def probes_def sent_def)
    next
      case no: False
      then show ?thesis
        using False g w Cons.prems
          Cons.IH [of videos "sent (HttpHead (''https:'' @ s_file s)) st"]
        by (simp add: Let_def probes_def sent_def)
    qed
  qed
qed

text \<open>
  C2, counterexample. The first entry of the playlist lists the 720 source before the
  480 source; reversed, the 480 source comes first and ends the scan. The page has an
  SD descriptor and no HD descriptor, and the 720 source was not probed.
\<close>

theorem getVideosFromJWPlayer_descending_counterexample:
  "map s_width descending = [720, 480]
   \<and> map s_type descending = [''mp4'', ''mp4'']
   \<and> getJWConfig demo_lib ''var jwConfig = {descending}; // end config''
       = Inr \<lparr>playlist = Some (Entries [descending])\<rparr>
   \<and> fst (getVideosFromJWPlayer demo_lib demo_net faithful_title ''http://blog/player''
             ''https://content.jwplatform.com/players/descending.js'' empty_state)
       = Inr \<lparr>p_pageUrl = ''http://blog/player'',
              p_sourceUrl = ''https://content.jwplatform.com/players/descending.js'',
              p_title = faithful_title, p_HD = None,
              p_SD = Some \<lparr>v_src = ''https://cdn/v-480.mp4'', v_label = ''SD'', v_size = Num 1000\<rparr>,
              p_subtitles = None, p_show = None, p_renamed = None\<rparr>
   \<and> requests (snd (getVideosFromJWPlayer demo_lib demo_net faithful_title ''http://blog/player''
                       ''https://content.jwplatform.com/players/descending.js'' empty_state))
       = [HttpGet ''https://content.jwplatform.com/players/descending.js'',
          HttpHead ''https://cdn/v-480.mp4'']"
  by code_simp

text \<open>
  C2, as amended. Let the reversed source list of the first playlist entry be
  \<open>before @ sd # after\<close>, where \<open>sd\<close> is its first source of width 480 that is not
  \<^verbatim>\<open>hls\<close>. The scan of the whole list is the scan of \<open>before @ [sd]\<close>: it ends at \<open>sd\<close> and
  reads nothing of \<open>after\<close>. If moreover every size probe is answered, the function
  returns a page with an SD descriptor, with an HD descriptor too when a source of
  width 720 that is not \<^verbatim>\<open>hls\<close> is in \<open>before\<close>, and the requests it made are the one for
  the script and one probe for each source of \<open>before @ [sd]\<close> that is not \<^verbatim>\<open>hls\<close>.
\<close>

theorem getVideosFromJWPlayer_scan:
  assumes "http_get W (requests st) sourceUrl = Inr response"
    and "getJWConfig L response = Inr config"
    and "playlist config = Some (Entries (sources # others))"
    and "rev sources = before @ sd # after"
    and "s_type sd \<noteq> ''hls''" and "s_width sd = 480"
    and "\<forall>s \<in> set before. s_type s \<noteq> ''hls'' \<longrightarrow> s_width s \<noteq> 480"
  shows "scanSources L W (rev sources) (None, None) (sent (HttpGet sourceUrl) st)
         = scanSources L W (before @ [sd]) (None, None) (sent (HttpGet sourceUrl) st)
       \<and> ((\<forall>history url. \<not> isl (http_head W history url)) \<longrightarrow>
           (\<exists>p st'. getVideosFromJWPlayer L W title pageUrl sourceUrl st = (Inr p, st')
              \<and> p_SD p \<noteq> None
              \<and> ((\<exists>s \<in> set before. s_type s \<noteq> ''hls'' \<and> s_width s = 720) \<longrightarrow> p_HD p \<noteq> None)
              \<and> requests st' = requests st @ HttpGet sourceUrl # probes (before @ [sd])))"
proof (intro conjI impI)
  show cut: "scanSources L W (rev sources) (None, None) (sent (HttpGet sourceUrl) st)
             = scanSources L W (before @ [sd]) (None, None) (sent (HttpGet sourceUrl) st)"
    using assms(4) scanSources_cut [OF assms(5,6)] by simp
  assume ok: "\<forall>history url. \<not> isl (http_head W history url)"
  obtain h v st' where scan:
      "scanSources L W (before @ [sd]) (None, None) (sent (HttpGet sourceUrl) st)
       = (Inr (h, Some v), st')"
      "requests st' = requests (sent (HttpGet sourceUrl) st) @ probes (before @ [sd])"
      "(\<exists>s \<in> set before. s_type s \<noteq> ''hls'' \<and> s_width s = 720) \<longrightarrow> h \<noteq> None"
    using scanSources_until_sd [OF ok assms(5,6,7), of L "(None, None)" "sent (HttpGet sourceUrl) st"]
    by auto
  show "\<exists>p st'. getVideosFromJWPlayer L W title pageUrl sourceUrl st = (Inr p, st')
          \<and> p_SD p \<noteq> None
          \<and> ((\<exists>s \<in> set before. s_type s \<noteq> ''hls'' \<and> s_width s = 720) \<longrightarrow> p_HD p \<noteq> None)
          \<and> requests st' = requests st @ HttpGet sourceUrl # probes (before @ [sd])"
    using assms(1,2,3) cut scan
    by (simp add: getVideosFromJWPlayer_def sent_def)
qed

theorem getVideosFromJWPlayer_scan_witness:
  "rev ascending
     = [\<lparr>s_type = ''mp4'', s_file = ''//cdn/v-720.mp4'', s_width = 720\<rparr>]
       @ \<lparr>s_type = ''mp4'', s_file = ''//cdn/v-480.mp4'', s_width = 480\<rparr>
       # [\<lparr>s_type = ''mp4'', s_file = ''//cdn/v-320.mp4'', s_width = 320\<rparr>,
          \<lparr>s_type = ''hls'', s_file = ''//cdn/v.m3u8'', s_width = 0\<rparr>]
   \<and> (\<forall>history url. \<not> isl (http_head demo_net history url))
   \<and> (\<exists>p st'. getVideosFromJWPlayer demo_lib demo_net faithful_title ''http://blog/jw''
                  ''https://content.jwplatform.com/players/ascending.js'' empty_state = (Inr p, st')
          \<and> p_SD p \<noteq> None \<and> p_HD p \<noteq> None
          \<and> requests st' = [HttpGet ''https://content.jwplatform.com/players/ascending.js'',
                            HttpHead ''https://cdn/v-720.mp4'', HttpHead ''https://cdn/v-480.mp4''])"
proof -
  let ?hd = "\<lparr>s_type = ''mp4'', s_file = ''//cdn/v-720.mp4'', s_width = 720\<rparr>"
  let ?sd = "\<lparr>s_type = ''mp4'', s_file = ''//cdn/v-480.mp4'', s_width = 480\<rparr>"
  let ?after = "[\<lparr>s_type = ''mp4'', s_file = ''//cdn/v-320.mp4'', s_width = 320\<rparr>,
                 \<lparr>s_type = ''hls'', s_file = ''//cdn/v.m3u8'', s_width = 0\<rparr>]"
  have a: "http_get demo_net (requests empty_state)
             ''https://content.jwplatform.com/players/ascending.js''
           = Inr ''var jwConfig = {ascending}; // end config''"
    by code_simp
  have b: "getJWConfig demo_lib ''var jwConfig = {ascending}; // end config''
           = Inr \<lparr>playlist = Some (Entries (ascending # []))\<rparr>"
    by code_simp
  have c: "playlist \<lparr>playlist = Some (Entries (ascending # []))\<rparr>
           = Some (Entries (ascending # []))"
    by simp
  have d: "rev ascending = [?hd] @ ?sd # ?after"
    by (simp add: ascending_def)
  have e: "s_type ?sd \<noteq> ''hls''" "s_width ?sd = 480"
    by simp_all
  have f: "\<forall>s \<in> set [?hd]. s_type s \<noteq> ''hls'' \<longrightarrow> s_width s \<noteq> 480"
    by simp
  have g: "\<forall>history url. \<not> isl (http_head demo_net history url)"
    by (simp add: demo_net_def)
  have h: "requests empty_state = []"
    by (simp add: empty_state_def)
  show ?thesis
    using getVideosFromJWPlayer_scan
            [OF a b c d e f, of faithful_title "''http://blog/jw''"] d g h
    by (simp add: probes_def)
qed

subsection \<open>The episode resolver\<close>

lemma getTVDBEpisodes_available:
  assumes "tvdb st seriesId = Some response
           \<or> tvdb st seriesId = None \<and> tvdb_get W (requests st) seriesId = Inr response"
  shows "fst (getTVDBEpisodes W seriesId st) = Inr response"
  using assms by (auto simp: getTVDBEpisodes_def)

lemma getTVDBEpisodes_unavailable:
  assumes "tvdb st seriesId = None" and "tvdb_get W (requests st) seriesId = Inl e"
  shows "fst (getTVDBEpisodes W seriesId st) = Inl e"
  using assms by (simp add: getTVDBEpisodes_def)

lemma js_0_7_bounds: "6999 / 10000 < js_0_7" "js_0_7 \<le> 7 / 10"
  by (simp_all add: js_0_7_def)

text \<open>
  C3. For a show with a catalog identifier whose episode list is available, let the index
  answer the scraped name with a list whose first element is \<open>(score, candidate)\<close>.
  If the score is at least the value of \<^verbatim>\<open>0.7\<close>, the file is named after the first catalog
  episode whose name is the candidate; if it is less (as \<^verbatim>\<open>0.6999\<close> is), after the first
  catalog episode whose name begins with the scraped name. In both cases the name is the
  one for no match when there is no such episode.
\<close>

theorem renameEpisode_threshold:
  assumes "p_show page = Some showKey"
    and "map_of SHOWS showKey = Some descriptor"
    and "sh_tvdb_id descriptor = Some seriesId"
    and "getTVDBEpisodes W seriesId st = (Inr response, st1)"
    and "FuzzySet_get L (fuzzyNames st1 showKey (filter (\<lambda>e. episodeName e \<noteq> []) response))
           (removeShowName (sh_name descriptor) (normalizeQuotes (p_title page)))
         = Some ((score, candidate) # others)"
  shows "(js_0_7 \<le> score \<longrightarrow>
            fst (renameEpisode L W page st)
            = Inr (fileName L showKey (sh_name descriptor)
                     (removeShowName (sh_name descriptor) (normalizeQuotes (p_title page)))
                     (find (\<lambda>e. episodeName e = candidate)
                        (filter (\<lambda>e. episodeName e \<noteq> []) response))))
       \<and> (score < js_0_7 \<longrightarrow>
            fst (renameEpisode L W page st)
            = Inr (fileName L showKey (sh_name descriptor)
                     (removeShowName (sh_name descriptor) (normalizeQuotes (p_title page)))
                     (find (\<lambda>e. startsWith (episodeName e)
                                  (removeShowName (sh_name descriptor) (normalizeQuotes (p_title page))))
                        (filter (\<lambda>e. episodeName e \<noteq> []) response))))
       \<and> 6999 / 10000 < js_0_7 \<and> js_0_7 \<le> 7 / 10"
  using assms js_0_7_bounds
  by (simp add: renameEpisode_def Let_def chooseMatch_def)

theorem renameEpisode_threshold_witness:
  "FuzzySet_get demo_lib [''Big Trees'', ''Old Faithful''] ''Old Faith''
     = Some [(js_0_7, ''Old Faithful'')]
   \<and> fst (renameEpisode demo_lib demo_net (demo_page ''californias-gold'' ''Old Faith'') empty_state)
       = Inr ''videos/californias-gold/Californias.Gold.S02E12.Old.Faithful.mp4''
   \<and> FuzzySet_get demo_lib [''Big Trees'', ''Old Faithful''] ''Old Faithful Inn''
       = Some [(6999 / 10000, ''Old Faithful'')]
   \<and> fst (renameEpisode demo_lib demo_net (demo_page ''californias-gold'' ''Old Faithful Inn'')
             empty_state)
       = Inr ''videos/californias-gold/Californias.Gold.Old.Faithful.Inn.mp4''"
proof -
  let ?d = "\<lparr>sh_name = ''California's Gold'', sh_tvdb_id = Some 279999\<rparr>"
  let ?st1 = "snd (getTVDBEpisodes demo_net 279999 empty_state)"
  let ?eps = "filter (\<lambda>e. episodeName e \<noteq> []) demo_episodes"
  have show1: "p_show (demo_page ''californias-gold'' ''Old Faith'') = Some ''californias-gold''"
    and show2: "p_show (demo_page ''californias-gold'' ''Old Faithful Inn'')
                = Some ''californias-gold''"
    by (simp_all add: demo_page_def)
  have known: "map_of SHOWS ''californias-gold'' = Some ?d"
    by code_simp
  have series: "sh_tvdb_id ?d = Some 279999"
    by simp
  have "fst (getTVDBEpisodes demo_net 279999 empty_state) = Inr demo_episodes"
    by code_simp
  then have catalog: "getTVDBEpisodes demo_net 279999 empty_state = (Inr demo_episodes, ?st1)"
    by (metis prod.collapse)
  have names: "fuzzyNames ?st1 ''californias-gold'' ?eps = [''Big Trees'', ''Old Faithful'']"
    by code_simp
  have scraped1:
    "removeShowName (sh_name ?d)
       (normalizeQuotes (p_title (demo_page ''californias-gold'' ''Old Faith''))) = ''Old Faith''"
    by code_simp
  have scraped2:
    "removeShowName (sh_name ?d)
       (normalizeQuotes (p_title (demo_page ''californias-gold'' ''Old Faithful Inn'')))
     = ''Old Faithful Inn''"
    by code_simp
  have fuzzy1: "FuzzySet_get demo_lib [''Big Trees'', ''Old Faithful''] ''Old Faith''
                = Some ((js_0_7, ''Old Faithful'') # [])"
    by code_simp
  have fuzzy2: "FuzzySet_get demo_lib [''Big Trees'', ''Old Faithful''] ''Old Faithful Inn''
                = Some ((6999 / 10000, ''Old Faithful'') # [])"
    by code_simp
  have name1: "fileName demo_lib ''californias-gold'' (sh_name ?d) ''Old Faith''
                 (find (\<lambda>e. episodeName e = ''Old Faithful'') ?eps)
               = ''videos/californias-gold/Californias.Gold.S02E12.Old.Faithful.mp4''"
    by code_simp
  have name2: "fileName demo_lib ''californias-gold'' (sh_name ?d) ''Old Faithful Inn''
                 (find (\<lambda>e. startsWith (episodeName e) ''Old Faithful Inn'') ?eps)
               = ''videos/californias-gold/Californias.Gold.Old.Faithful.Inn.mp4''"
    by code_simp
  have high: "js_0_7 \<le> js_0_7" and low: "6999 / 10000 < js_0_7"
    by (simp_all add: js_0_7_def)
  have first: "fst (renameEpisode demo_lib demo_net (demo_page ''californias-gold'' ''Old Faith'')
                      empty_state)
               = Inr ''videos/californias-gold/Californias.Gold.S02E12.Old.Faithful.mp4''"
    using renameEpisode_threshold [OF show1 known series catalog, of demo_lib js_0_7 "''Old Faithful''" "[]"]
          fuzzy1 high
    unfolding names scraped1 name1 by simp
  have second: "fst (renameEpisode demo_lib demo_net
                       (demo_page ''californias-gold'' ''Old Faithful Inn'') empty_state)
                = Inr ''videos/californias-gold/Californias.Gold.Old.Faithful.Inn.mp4''"
    using renameEpisode_threshold [OF show2 known series catalog, of demo_lib "6999 / 10000" "''Old Faithful''" "[]"]
          fuzzy2 low
    unfolding names scraped2 name2 by simp
  show ?thesis
    using first second fuzzy1 fuzzy2 by simp
qed

text \<open>
  C4, counterexample. The show has a catalog identifier, its episode list is not in the
  cache and the catalog does not answer: \<open>renameEpisode\<close> fails with the error of the
  catalog client.
\<close>

theorem renameEpisode_catalog_unavailable_counterexample:
  "map_of SHOWS ''californias-golden-coast''
     = Some \<lparr>sh_name = ''California's Golden Coast'', sh_tvdb_id = Some 282164\<rparr>
   \<and> tvdb empty_state 282164 = None
   \<and> tvdb_get demo_net (requests empty_state) 282164 = Inl (LibraryError ''ETIMEDOUT'')
   \<and> fst (renameEpisode demo_lib demo_net (demo_page ''californias-golden-coast'' ''Big Sur'')
             empty_state)
       = Inl (LibraryError ''ETIMEDOUT'')"
  by code_simp

lemma getTVDBEpisodes_fuzzyset:
  "getTVDBEpisodes W seriesId st = (r, st1) \<Longrightarrow> fuzzyset st1 = fuzzyset st"
  by (auto simp: getTVDBEpisodes_def sent_def split: option.splits sum.splits)

text \<open>
  C4, as amended. Take a page of a show of \<open>SHOWS\<close>. If the show has no catalog
  identifier, \<open>renameEpisode\<close> returns the name made of the title alone. If it has one and
  the episode list is in the cache or the catalog returns it: when the index has no
  candidate, \<open>renameEpisode\<close> returns the name made of the title alone; when the index
  answers with a first candidate, it returns the name for the catalog episode looked up
  for that candidate, which is the name made of the title alone when no catalog episode
  is found (none whose name begins with the scraped name, for a score below \<^verbatim>\<open>0.7\<close>; none
  named as the candidate, otherwise). If the episode list is not in the cache and the
  catalog fails, \<open>renameEpisode\<close> fails with that error. The name made of the title alone
  is the show name and the scraped name, dotted, with the placeholder between them.
\<close>

theorem renameEpisode_best_effort:
  assumes "p_show page = Some showKey"
    and "map_of SHOWS showKey = Some descriptor"
  shows "(sh_tvdb_id descriptor = None \<longrightarrow>
            fst (renameEpisode L W page st)
            = Inr (fileName L showKey (sh_name descriptor)
                     (removeShowName (sh_name descriptor) (normalizeQuotes (p_title page))) None))
       \<and> (\<forall>seriesId response.
            sh_tvdb_id descriptor = Some seriesId
            \<and> (tvdb st seriesId = Some response
                \<or> tvdb st seriesId = None \<and> tvdb_get W (requests st) seriesId = Inr response)
            \<longrightarrow>
              (FuzzySet_get L (fuzzyNames st showKey (filter (\<lambda>e. episodeName e \<noteq> []) response))
                 (removeShowName (sh_name descriptor) (normalizeQuotes (p_title page)))
               = None
               \<longrightarrow> fst (renameEpisode L W page st)
                   = Inr (fileName L showKey (sh_name descriptor)
                            (removeShowName (sh_name descriptor)
                               (normalizeQuotes (p_title page))) None))
            \<and> (\<forall>score candidate others.
                 FuzzySet_get L (fuzzyNames st showKey (filter (\<lambda>e. episodeName e \<noteq> []) response))
                   (removeShowName (sh_name descriptor) (normalizeQuotes (p_title page)))
                 = Some ((score, candidate) # others)
                 \<longrightarrow>
                   fst (renameEpisode L W page st)
                   = Inr (fileName L showKey (sh_name descriptor)
                            (removeShowName (sh_name descriptor) (normalizeQuotes (p_title page)))
                            (if score < js_0_7
                             then find (\<lambda>e. startsWith (episodeName e)
                                               (removeShowName (sh_name descriptor)
                                                  (normalizeQuotes (p_title page))))
                                    (filter (\<lambda>e. episodeName e \<noteq> []) response)
                             else find (\<lambda>e. episodeName e = candidate)
                                    (filter (\<lambda>e. episodeName e \<noteq> []) response)))
                 \<and> ((score < js_0_7
                       \<and> (\<forall>e \<in> set response. episodeName e \<noteq> []
                             \<longrightarrow> \<not> startsWith (episodeName e)
                                       (removeShowName (sh_name descriptor)
                                          (normalizeQuotes (p_title page))))
                      \<or> js_0_7 \<le> score
                       \<and> (\<forall>e \<in> set response. episodeName e \<noteq> [] \<longrightarrow> episodeName e \<noteq> candidate))
                     \<longrightarrow> fst (renameEpisode L W page st)
                         = Inr (fileName L showKey (sh_name descriptor)
                                  (removeShowName (sh_name descriptor)
                                     (normalizeQuotes (p_title page))) None))))
       \<and> (\<forall>seriesId e.
            sh_tvdb_id descriptor = Some seriesId \<and> tvdb st seriesId = None
            \<and> tvdb_get W (requests st) seriesId = Inl e
            \<longrightarrow> fst (renameEpisode L W page st) = Inl e)
       \<and> fileName L showKey (sh_name descriptor)
            (removeShowName (sh_name descriptor) (normalizeQuotes (p_title page))) None
          = ''videos/'' @ showKey @ ''/''
            @ sanitize L
                (replaceAll CHR 0x27 [] (replaceAll (CHR '' '') ''.'' (sh_name descriptor))
                 @ ''.''
                 @ replaceAll (CHR ''&'') ''and''
                     (replaceAll CHR 0x27 []
                        (replaceAll (CHR '' '') ''.''
                           (removeShowName (sh_name descriptor) (normalizeQuotes (p_title page))))))
            @ ''.mp4''"
proof -
  let ?name = "removeShowName (sh_name descriptor) (normalizeQuotes (p_title page))"
  let ?alone = "Inr (fileName L showKey (sh_name descriptor) ?name None)"
  have no_id: "sh_tvdb_id descriptor = None \<longrightarrow> fst (renameEpisode L W page st) = ?alone"
    using assms by (simp add: renameEpisode_def Let_def)
  have fails: "\<forall>seriesId e.
            sh_tvdb_id descriptor = Some seriesId \<and> tvdb st seriesId = None
            \<and> tvdb_get W (requests st) seriesId = Inl e
            \<longrightarrow> fst (renameEpisode L W page st) = Inl e"
  proof (intro allI impI)
    fix seriesId e
    assume "sh_tvdb_id descriptor = Some seriesId \<and> tvdb st seriesId = None
            \<and> tvdb_get W (requests st) seriesId = Inl e"
    then show "fst (renameEpisode L W page st) = Inl e"
      using assms getTVDBEpisodes_unavailable [of st seriesId W e]
      by (cases "getTVDBEpisodes W seriesId st") (simp add: renameEpisode_def Let_def)
  qed
  have alone: "fileName L showKey (sh_name descriptor) ?name None
          = ''videos/'' @ showKey @ ''/''
            @ sanitize L
                (replaceAll CHR 0x27 [] (replaceAll (CHR '' '') ''.'' (sh_name descriptor))
                 @ ''.''
                 @ replaceAll (CHR ''&'') ''and''
                     (replaceAll CHR 0x27 [] (replaceAll (CHR '' '') ''.'' ?name)))
            @ ''.mp4''"
    by (simp add: fileName_def Let_def)
  have available: "\<forall>seriesId response.
            sh_tvdb_id descriptor = Some seriesId
            \<and> (tvdb st seriesId = Some response
                \<or> tvdb st seriesId = None \<and> tvdb_get W (requests st) seriesId = Inr response)
            \<longrightarrow>
              (FuzzySet_get L (fuzzyNames st showKey (filter (\<lambda>e. episodeName e \<noteq> []) response))
                 ?name = None
               \<longrightarrow> fst (renameEpisode L W page st) = ?alone)
            \<and> (\<forall>score candidate others.
                 FuzzySet_get L (fuzzyNames st showKey (filter (\<lambda>e. episodeName e \<noteq> []) response))
                   ?name = Some ((score, candidate) # others)
                 \<longrightarrow>
                   fst (renameEpisode L W page st)
                   = Inr (fileName L showKey (sh_name descriptor) ?name
                            (if score < js_0_7
                             then find (\<lambda>e. startsWith (episodeName e) ?name)
                                    (filter (\<lambda>e. episodeName e \<noteq> []) response)
                             else find (\<lambda>e. episodeName e = candidate)
                                    (filter (\<lambda>e. episodeName e \<noteq> []) response)))
                 \<and> ((score < js_0_7
                       \<and> (\<forall>e \<in> set response. episodeName e \<noteq> []
                             \<longrightarrow> \<not> startsWith (episodeName e) ?name)
                      \<or> js_0_7 \<le> score
                       \<and> (\<forall>e \<in> set response. episodeName e \<noteq> [] \<longrightarrow> episodeName e \<noteq> candidate))
                     \<longrightarrow> fst (renameEpisode L W page st) = ?alone))"
  proof (intro allI impI)
    fix seriesId and response :: "episode list"
    let ?episodes = "filter (\<lambda>e. episodeName e \<noteq> []) response"
    let ?names = "fuzzyNames st showKey ?episodes"
    assume h: "sh_tvdb_id descriptor = Some seriesId
               \<and> (tvdb st seriesId = Some response
                   \<or> tvdb st seriesId = None \<and> tvdb_get W (requests st) seriesId = Inr response)"
    then have "fst (getTVDBEpisodes W seriesId st) = Inr response"
      using getTVDBEpisodes_available by blast
    then obtain st1 where catalog: "getTVDBEpisodes W seriesId st = (Inr response, st1)"
      by (metis prod.collapse)
    have same: "fuzzyNames st1 showKey ?episodes = ?names"
      using getTVDBEpisodes_fuzzyset [OF catalog] by (simp add: fuzzyNames_def)
    have none: "FuzzySet_get L ?names ?name = None
                \<longrightarrow> fst (renameEpisode L W page st) = ?alone"
      using assms h catalog same by (simp add: renameEpisode_def Let_def)
    have some: "\<forall>score candidate others.
                 FuzzySet_get L ?names ?name = Some ((score, candidate) # others)
                 \<longrightarrow>
                   fst (renameEpisode L W page st)
                   = Inr (fileName L showKey (sh_name descriptor) ?name
                            (if score < js_0_7
                             then find (\<lambda>e. startsWith (episodeName e) ?name) ?episodes
                             else find (\<lambda>e. episodeName e = candidate) ?episodes))
                 \<and> ((score < js_0_7
                       \<and> (\<forall>e \<in> set response. episodeName e \<noteq> []
                             \<longrightarrow> \<not> startsWith (episodeName e) ?name)
                      \<or> js_0_7 \<le> score
                       \<and> (\<forall>e \<in> set response. episodeName e \<noteq> [] \<longrightarrow> episodeName e \<noteq> candidate))
                     \<longrightarrow> fst (renameEpisode L W page st) = ?alone)"
    proof (intro allI impI)
      fix score candidate others
      assume fuzzy: "FuzzySet_get L ?names ?name = Some ((score, candidate) # others)"
      have result: "fst (renameEpisode L W page st)
                   = Inr (fileName L showKey (sh_name descriptor) ?name
                            (if score < js_0_7
                             then find (\<lambda>e. startsWith (episodeName e) ?name) ?episodes
                             else find (\<lambda>e. episodeName e = candidate) ?episodes))"
        using assms h catalog same fuzzy
        by (simp add: renameEpisode_def Let_def chooseMatch_def)
      have miss: "(score < js_0_7
                    \<and> (\<forall>e \<in> set response. episodeName e \<noteq> []
                          \<longrightarrow> \<not> startsWith (episodeName e) ?name)
                   \<or> js_0_7 \<le> score
                    \<and> (\<forall>e \<in> set response. episodeName e \<noteq> [] \<longrightarrow> episodeName e \<noteq> candidate))
                  \<longrightarrow> fst (renameEpisode L W page st) = ?alone"
      proof
        assume "score < js_0_7
                  \<and> (\<forall>e \<in> set response. episodeName e \<noteq> []
                        \<longrightarrow> \<not> startsWith (episodeName e) ?name)
                \<or> js_0_7 \<le> score
                  \<and> (\<forall>e \<in> set response. episodeName e \<noteq> [] \<longrightarrow> episodeName e \<noteq> candidate)"
        then have "(if score < js_0_7
                    then find (\<lambda>e. startsWith (episodeName e) ?name) ?episodes
                    else find (\<lambda>e. episodeName e = candidate) ?episodes) = None"
          by (auto simp: find_None_iff)
        with result show "fst (renameEpisode L W page st) = ?alone"
          by simp
      qed
      from result miss
      show "fst (renameEpisode L W page st)
                   = Inr (fileName L showKey (sh_name descriptor) ?name
                            (if score < js_0_7
                             then find (\<lambda>e. startsWith (episodeName e) ?name) ?episodes
                             else find (\<lambda>e. episodeName e = candidate) ?episodes))
                 \<and> ((score < js_0_7
                       \<and> (\<forall>e \<in> set response. episodeName e \<noteq> []
                             \<longrightarrow> \<not> startsWith (episodeName e) ?name)
                      \<or> js_0_7 \<le> score
                       \<and> (\<forall>e \<in> set response. episodeName e \<noteq> [] \<longrightarrow> episodeName e \<noteq> candidate))
                     \<longrightarrow> fst (renameEpisode L W page st) = ?alone)"
        by (rule conjI)
    qed
    from none some
    show "(FuzzySet_get L ?names ?name = None
               \<longrightarrow> fst (renameEpisode L W page st) = ?alone)
            \<and> (\<forall>score candidate others.
                 FuzzySet_get L ?names ?name = Some ((score, candidate) # others)
                 \<longrightarrow>
                   fst (renameEpisode L W page st)
                   = Inr (fileName L showKey (sh_name descriptor) ?name
                            (if score < js_0_7
                             then find (\<lambda>e. startsWith (episodeName e) ?name) ?episodes
                             else find (\<lambda>e. episodeName e = candidate) ?episodes))
                 \<and> ((score < js_0_7
                       \<and> (\<forall>e \<in> set response. episodeName e \<noteq> []
                             \<longrightarrow> \<not> startsWith (episodeName e) ?name)
                      \<or> js_0_7 \<le> score
                       \<and> (\<forall>e \<in> set response. episodeName e \<noteq> [] \<longrightarrow> episodeName e \<noteq> candidate))
                     \<longrightarrow> fst (renameEpisode L W page st) = ?alone))"
      by (rule conjI)
  qed
  from no_id available fails alone show ?thesis
    by (intro conjI)
qed

theorem renameEpisode_best_effort_witness:
  "map_of SHOWS ''downtown'' = Some \<lparr>sh_name = ''Downtown'', sh_tvdb_id = None\<rparr>
   \<and> fst (renameEpisode demo_lib demo_net
             (demo_page ''downtown'' (''Bradbury Building '' @ em_dash @ '' Downtown'')) empty_state)
       = Inr ''videos/downtown/Downtown.Bradbury.Building.mp4''
   \<and> map_of SHOWS ''californias-gold''
       = Some \<lparr>sh_name = ''California's Gold'', sh_tvdb_id = Some 279999\<rparr>
   \<and> tvdb empty_state 279999 = None
   \<and> tvdb_get demo_net (requests empty_state) 279999 = Inr demo_episodes
   \<and> FuzzySet_get demo_lib [''Big Trees'', ''Old Faithful''] ''Salt & Pepper'' = None
   \<and> fst (renameEpisode demo_lib demo_net (demo_page ''californias-gold'' ''Salt & Pepper'')
             empty_state)
       = Inr ''videos/californias-gold/Californias.Gold.Salt.and.Pepper.mp4''
   \<and> FuzzySet_get demo_lib [''Big Trees'', ''Old Faithful''] ''Old Faithful Inn''
       = Some [(6999 / 10000, ''Old Faithful'')]
   \<and> 6999 / 10000 < js_0_7
   \<and> find (\<lambda>e. startsWith (episodeName e) ''Old Faithful Inn'') demo_episodes = None
   \<and> fst (renameEpisode demo_lib demo_net (demo_page ''californias-gold'' ''Old Faithful Inn'')
             empty_state)
       = Inr ''videos/californias-gold/Californias.Gold.Old.Faithful.Inn.mp4''"
proof -
  let ?downtown = "\<lparr>sh_name = ''Downtown'', sh_tvdb_id = None\<rparr>"
  let ?gold = "\<lparr>sh_name = ''California's Gold'', sh_tvdb_id = Some 279999\<rparr>"
  let ?bradbury = "demo_page ''downtown'' (''Bradbury Building '' @ em_dash @ '' Downtown'')"
  let ?salt = "demo_page ''californias-gold'' ''Salt & Pepper''"
  let ?inn = "demo_page ''californias-gold'' ''Old Faithful Inn''"
  have show1: "p_show ?bradbury = Some ''downtown''"
    and show2: "p_show ?salt = Some ''californias-gold''"
    and show3: "p_show ?inn = Some ''californias-gold''"
    by (simp_all add: demo_page_def)
  have known1: "map_of SHOWS ''downtown'' = Some ?downtown"
    and known2: "map_of SHOWS ''californias-gold'' = Some ?gold"
    by code_simp+
  have name1: "fileName demo_lib ''downtown'' (sh_name ?downtown)
                 (removeShowName (sh_name ?downtown) (normalizeQuotes (p_title ?bradbury))) None
               = ''videos/downtown/Downtown.Bradbury.Building.mp4''"
    by code_simp
  have name2: "fileName demo_lib ''californias-gold'' (sh_name ?gold) ''Salt & Pepper'' None
               = ''videos/californias-gold/Californias.Gold.Salt.and.Pepper.mp4''"
    by code_simp
  have name3: "fileName demo_lib ''californias-gold'' (sh_name ?gold) ''Old Faithful Inn'' None
               = ''videos/californias-gold/Californias.Gold.Old.Faithful.Inn.mp4''"
    by code_simp
  have cache: "tvdb empty_state 279999 = None"
    by (simp add: empty_state_def)
  have catalog: "tvdb_get demo_net (requests empty_state) 279999 = Inr demo_episodes"
    by (simp add: demo_net_def)
  have names: "fuzzyNames empty_state ''californias-gold''
                 (filter (\<lambda>e. episodeName e \<noteq> []) demo_episodes) = [''Big Trees'', ''Old Faithful'']"
    by code_simp
  have scraped2: "removeShowName (sh_name ?gold) (normalizeQuotes (p_title ?salt)) = ''Salt & Pepper''"
    by code_simp
  have scraped3: "removeShowName (sh_name ?gold) (normalizeQuotes (p_title ?inn))
                  = ''Old Faithful Inn''"
    by code_simp
  have fuzzy2: "FuzzySet_get demo_lib [''Big Trees'', ''Old Faithful''] ''Salt & Pepper'' = None"
    by code_simp
  have fuzzy3: "FuzzySet_get demo_lib [''Big Trees'', ''Old Faithful''] ''Old Faithful Inn''
                = Some ((6999 / 10000, ''Old Faithful'') # [])"
    by code_simp
  have low: "6999 / 10000 < js_0_7"
    by (simp add: js_0_7_def)
  have none_begins: "\<forall>e \<in> set demo_episodes. episodeName e \<noteq> []
                       \<longrightarrow> \<not> startsWith (episodeName e) ''Old Faithful Inn''"
    by (simp add: demo_episodes_def)
  have first: "fst (renameEpisode demo_lib demo_net ?bradbury empty_state)
               = Inr ''videos/downtown/Downtown.Bradbury.Building.mp4''"
    using renameEpisode_best_effort [OF show1 known1, of demo_lib demo_net empty_state]
    unfolding name1 by simp
  note gold = renameEpisode_best_effort
                [THEN conjunct2, THEN conjunct1, rule_format, of _ "''californias-gold''" ?gold
                   279999 empty_state demo_episodes demo_net demo_lib]
  have second: "fst (renameEpisode demo_lib demo_net ?salt empty_state)
                = Inr ''videos/californias-gold/Californias.Gold.Salt.and.Pepper.mp4''"
    using gold [OF show2 known2, THEN conjunct1] cache catalog fuzzy2
    unfolding names scraped2 name2 by simp
  have third: "fst (renameEpisode demo_lib demo_net ?inn empty_state)
               = Inr ''videos/californias-gold/Californias.Gold.Old.Faithful.Inn.mp4''"
    using gold [OF show3 known2, THEN conjunct2, rule_format,
                of "6999 / 10000" "''Old Faithful''" "[]", THEN conjunct2]
          cache catalog fuzzy3 low none_begins
    unfolding names scraped3 name3 by simp
  have not_found: "find (\<lambda>e. startsWith (episodeName e) ''Old Faithful Inn'') demo_episodes = None"
    by code_simp
  show ?thesis
    using first second third known1 known2 cache catalog fuzzy2 fuzzy3 low not_found by simp
qed

lemma episodePadding_examples: "episodePadding 2 = ''02''" "episodePadding 12 = ''12''"
  by code_simp+

lemma removeShowName_old_faithful:
  "removeShowName ''California's Gold''
     (normalizeQuotes (''Old Faithful '' @ en_dash @ '' California's Gold (112)''))
   = ''Old Faithful''"
  by code_simp

text \<open>
  C5. The page of the show \<^verbatim>\<open>californias-gold\<close> (display name \<^verbatim>\<open>California's Gold\<close>) has
  the scraped title \<^verbatim>\<open>Old Faithful\<close> U+2013 \<^verbatim>\<open>California's Gold (112)\<close>; the catalog episode
  chosen for it is \<^verbatim>\<open>Old Faithful\<close>, season 2, episode 12; and the sanitizer leaves
  \<^verbatim>\<open>Californias.Gold.S02E12.Old.Faithful\<close> as it is. Then \<open>renameEpisode\<close> returns
  \<^verbatim>\<open>videos/californias-gold/Californias.Gold.S02E12.Old.Faithful.mp4\<close>.
\<close>

theorem renameEpisode_old_faithful:
  assumes "p_show page = Some ''californias-gold''"
    and "p_title page = ''Old Faithful '' @ en_dash @ '' California's Gold (112)''"
    and "getTVDBEpisodes W 279999 st = (Inr response, st1)"
    and "FuzzySet_get L
           (fuzzyNames st1 ''californias-gold'' (filter (\<lambda>e. episodeName e \<noteq> []) response))
           ''Old Faithful''
         = Some (firstMatch # others)"
    and "chooseMatch (filter (\<lambda>e. episodeName e \<noteq> []) response) ''Old Faithful'' firstMatch
         = Some \<lparr>episodeName = ''Old Faithful'', airedSeason = 2, airedEpisodeNumber = 12\<rparr>"
    and "sanitize L ''Californias.Gold.S02E12.Old.Faithful''
         = ''Californias.Gold.S02E12.Old.Faithful''"
  shows "map_of SHOWS ''californias-gold''
         = Some \<lparr>sh_name = ''California's Gold'', sh_tvdb_id = Some 279999\<rparr>
       \<and> fst (renameEpisode L W page st)
         = Inr ''videos/californias-gold/Californias.Gold.S02E12.Old.Faithful.mp4''"
proof -
  have known: "map_of SHOWS ''californias-gold''
               = Some \<lparr>sh_name = ''California's Gold'', sh_tvdb_id = Some 279999\<rparr>"
    by code_simp
  have name: "fileName L ''californias-gold'' ''California's Gold'' ''Old Faithful''
                (Some \<lparr>episodeName = ''Old Faithful'', airedSeason = 2, airedEpisodeNumber = 12\<rparr>)
              = ''videos/californias-gold/''
                @ sanitize L ''Californias.Gold.S02E12.Old.Faithful'' @ ''.mp4''"
    by (simp add: fileName_def Let_def replaceAll_def episodePadding_examples)
  show ?thesis
    using assms known name removeShowName_old_faithful
    by (simp add: renameEpisode_def Let_def)
qed

theorem renameEpisode_old_faithful_witness:
  "p_title (demo_page ''californias-gold'' faithful_title)
     = ''Old Faithful '' @ en_dash @ '' California's Gold (112)''
   \<and> FuzzySet_get demo_lib [''Big Trees'', ''Old Faithful''] ''Old Faithful''
       = Some [(1, ''Old Faithful'')]
   \<and> chooseMatch (filter (\<lambda>e. episodeName e \<noteq> []) demo_episodes) ''Old Faithful''
         (1, ''Old Faithful'')
       = Some \<lparr>episodeName = ''Old Faithful'', airedSeason = 2, airedEpisodeNumber = 12\<rparr>
   \<and> sanitize demo_lib ''Californias.Gold.S02E12.Old.Faithful''
       = ''Californias.Gold.S02E12.Old.Faithful''
   \<and> fst (renameEpisode demo_lib demo_net (demo_page ''californias-gold'' faithful_title)
             empty_state)
       = Inr ''videos/californias-gold/Californias.Gold.S02E12.Old.Faithful.mp4''"
proof -
  let ?st1 = "snd (getTVDBEpisodes demo_net 279999 empty_state)"
  let ?eps = "filter (\<lambda>e. episodeName e \<noteq> []) demo_episodes"
  have a: "p_show (demo_page ''californias-gold'' faithful_title) = Some ''californias-gold''"
    by (simp add: demo_page_def)
  have b: "p_title (demo_page ''californias-gold'' faithful_title)
           = ''Old Faithful '' @ en_dash @ '' California's Gold (112)''"
    by (simp add: demo_page_def faithful_title_def)
  have "fst (getTVDBEpisodes demo_net 279999 empty_state) = Inr demo_episodes"
    by code_simp
  then have c: "getTVDBEpisodes demo_net 279999 empty_state = (Inr demo_episodes, ?st1)"
    by (metis prod.collapse)
  have names: "fuzzyNames ?st1 ''californias-gold'' ?eps = [''Big Trees'', ''Old Faithful'']"
    by code_simp
  have fuzzy: "FuzzySet_get demo_lib [''Big Trees'', ''Old Faithful''] ''Old Faithful''
               = Some ((1, ''Old Faithful'') # [])"
    by code_simp
  have d: "FuzzySet_get demo_lib (fuzzyNames ?st1 ''californias-gold'' ?eps) ''Old Faithful''
           = Some ((1, ''Old Faithful'') # [])"
    unfolding names by (rule fuzzy)
  have e: "chooseMatch ?eps ''Old Faithful'' (1, ''Old Faithful'')
           = Some \<lparr>episodeName = ''Old Faithful'', airedSeason = 2, airedEpisodeNumber = 12\<rparr>"
    by code_simp
  have f: "sanitize demo_lib ''Californias.Gold.S02E12.Old.Faithful''
           = ''Californias.Gold.S02E12.Old.Faithful''"
    by (simp add: demo_lib_def)
  show ?thesis
    using renameEpisode_old_faithful [OF a b c d e f] b fuzzy e f by simp
qed

subsection \<open>The order of the manifest\<close>

lemma mset_insertSorted: "mset (insertSorted cmp x xs) = add_mset x (mset xs)"
  by (induction xs) auto

lemma mset_sortBy: "mset (sortBy cmp xs) = mset xs"
  by (induction xs) (auto simp: sortBy_def mset_insertSorted)

lemma set_insertSorted: "set (insertSorted cmp x xs) = insert x (set xs)"
  by (induction xs) auto

lemma set_sortBy: "set (sortBy cmp xs) = set xs"
  by (induction xs) (auto simp: sortBy_def set_insertSorted)

lemma sorted_insertSorted:
  assumes total: "\<forall>a b. cmp a b \<le> 0 \<or> cmp b a \<le> 0"
    and trans: "\<forall>a b c. cmp a b \<le> 0 \<and> cmp b c \<le> 0 \<longrightarrow> cmp a c \<le> 0"
    and sorted: "sorted_wrt (\<lambda>a b. cmp a b \<le> 0) xs"
  shows "sorted_wrt (\<lambda>a b. cmp a b \<le> 0) (insertSorted cmp x xs)"
  using sorted
proof (induction xs)
  case Nil
  show ?case by simp
next
  case (Cons y ys)
  show ?case
  proof (cases "cmp x y \<le> 0")
    case True
    have "\<forall>z \<in> set ys. cmp x z \<le> 0"
    proof
      fix z
      assume "z \<in> set ys"
      then have "cmp y z \<le> 0"
        using Cons.prems by simp
      with True show "cmp x z \<le> 0"
        using trans by blast
    qed
    then show ?thesis
      using True Cons.prems by simp
  next
    case False
    then have "cmp y x \<le> 0"
      using total by blast
    then show ?thesis
      using False Cons by (simp add: set_insertSorted)
  qed
qed

lemma sorted_sortBy:
  assumes "\<forall>a b. cmp a b \<le> 0 \<or> cmp b a \<le> 0"
    and "\<forall>a b c. cmp a b \<le> 0 \<and> cmp b c \<le> 0 \<longrightarrow> cmp a c \<le> 0"
  shows "sorted_wrt (\<lambda>a b. cmp a b \<le> 0) (sortBy cmp xs)"
proof (induction xs)
  case Nil
  show ?case by (simp add: sortBy_def)
next
  case (Cons x xs)
  then show ?case
    using sorted_insertSorted [OF assms, of "sortBy cmp xs" x] by (simp add: sortBy_def)
qed

lemma two_pages:
  assumes "mset [y, z] = mset [b, c]"
  shows "y = b \<and> z = c \<or> y = c \<and> z = b"
  using assms by (auto simp: add_eq_conv_ex)

lemma three_pages:
  assumes "mset vs = mset [a, b, c]"
  shows "vs \<in> {[a, b, c], [a, c, b], [b, a, c], [b, c, a], [c, a, b], [c, b, a]}"
proof -
  have "length vs = 3"
    using mset_eq_length [OF assms] by simp
  then obtain x y z where vs: "vs = [x, y, z]"
    by (auto simp: length_Suc_conv numeral_3_eq_3)
  have "set [x, y, z] = set [a, b, c]"
    using assms vs mset_eq_setD by blast
  then have "x = a \<or> x = b \<or> x = c"
    by auto
  then consider (a) "x = a" | (b) "x = b" | (c) "x = c"
    by blast
  then show ?thesis
  proof cases
    case a
    then have "mset [y, z] = mset [b, c]"
      using assms vs by simp
    from two_pages [OF this] show ?thesis
      using a vs by auto
  next
    case b
    have "mset [a, b, c] = add_mset b (mset [a, c])"
      by simp
    then have "mset [y, z] = mset [a, c]"
      using assms vs b by (simp add: add_mset_commute)
    from two_pages [OF this] show ?thesis
      using b vs by auto
  next
    case c
    have "mset [a, b, c] = add_mset c (mset [a, b])"
      by simp
    then have "mset [y, z] = mset [a, b]"
      using assms vs c by (simp add: add_mset_commute)
    from two_pages [OF this] show ?thesis
      using c vs by auto
  qed
qed

lemma sortBy_three:
  assumes "cmp a b < 0" "cmp b c < 0" "cmp a c < 0" "0 < cmp b a" "0 < cmp c b" "0 < cmp c a"
    and "mset vs = mset [a, b, c]"
  shows "sortBy cmp vs = [a, b, c]"
proof -
  have le: "cmp a b \<le> 0" "cmp b c \<le> 0" "cmp a c \<le> 0"
    and gt: "\<not> cmp b a \<le> 0" "\<not> cmp c b \<le> 0" "\<not> cmp c a \<le> 0"
    using assms(1-6) by simp_all
  consider "vs = [a, b, c]" | "vs = [a, c, b]" | "vs = [b, a, c]"
    | "vs = [b, c, a]" | "vs = [c, a, b]" | "vs = [c, b, a]"
    using three_pages [OF assms(7)] by blast
  then show ?thesis
    by cases (simp_all add: sortBy_def le gt)
qed

lemma consistent_byRenamed:
  assumes "consistent (localeCompare L)"
  shows "consistent (byRenamed L)"
  using assms unfolding consistent_def byRenamed_def by blast

lemma emitCommands_three:
  assumes "pageCommands L 0 3 a = Inr ca" "pageCommands L 1 3 b = Inr cb"
    and "pageCommands L 2 3 c = Inr cc"
  shows "emitCommands L 0 3 [a, b, c] = Inr (ca @ cb @ cc)"
  using assms by (simp add: numeral_2_eq_2)

lemma filter_insertSorted:
  assumes "P x \<Longrightarrow> \<forall>y \<in> set xs. P y \<longrightarrow> cmp x y \<le> 0"
  shows "filter P (insertSorted cmp x xs) = (if P x then x # filter P xs else filter P xs)"
  using assms by (induction xs) auto

lemma filter_sortBy:
  assumes "\<forall>x y. P x \<and> P y \<longrightarrow> cmp x y \<le> 0"
  shows "filter P (sortBy cmp xs) = filter P xs"
proof (induction xs)
  case Nil
  show ?case by (simp add: sortBy_def)
next
  case (Cons x xs)
  have "filter P (insertSorted cmp x (sortBy cmp xs))
        = (if P x then x # filter P (sortBy cmp xs) else filter P (sortBy cmp xs))"
    using assms by (intro filter_insertSorted) blast
  then show ?case
    using Cons by (simp add: sortBy_def)
qed

lemma compareBytes_order:
  "compareBytes a b = (if a < b then - 1 else if a = b then 0 else 1)"
  by (induction a b rule: compareBytes.induct) (auto simp: less_char_def)

lemma collate_le:
  "collate a b \<le> 0 \<longleftrightarrow> map lower a < map lower b \<or> map lower a = map lower b \<and> b \<le> a"
  by (auto simp: collate_def compareBytes_order)

lemma consistent_collate: "consistent collate"
  unfolding consistent_def collate_le by (auto simp: not_less)

text \<open>
  C7, counterexample. Two resolved pages are crawled in the order Casa Grande, Casa de
  Fruta. In the lexicographic order of the code units the name with \<^verbatim>\<open>Grande\<close> is the
  smaller one, since \<^verbatim>\<open>G\<close> is before \<^verbatim>\<open>d\<close>; \<^verbatim>\<open>localeCompare\<close> puts the name with \<^verbatim>\<open>de\<close> first,
  and the manifest lists the commands in that order.
\<close>

theorem generateCommands_collation_counterexample:
  \<open>compareBytes ''videos/downtown/Downtown.Casa.Grande.mp4''
     ''videos/downtown/Downtown.Casa.de.Fruta.mp4'' < 0
   \<and> localeCompare demo_lib ''videos/downtown/Downtown.Casa.de.Fruta.mp4''
         ''videos/downtown/Downtown.Casa.Grande.mp4'' < 0
   \<and> sortBy (byRenamed demo_lib)
         [named_page ''Casa Grande'' ''videos/downtown/Downtown.Casa.Grande.mp4'',
          named_page ''Casa de Fruta'' ''videos/downtown/Downtown.Casa.de.Fruta.mp4'']
       = [named_page ''Casa de Fruta'' ''videos/downtown/Downtown.Casa.de.Fruta.mp4'',
          named_page ''Casa Grande'' ''videos/downtown/Downtown.Casa.Grande.mp4'']
   \<and> generateCommands demo_lib
         [named_page ''Casa Grande'' ''videos/downtown/Downtown.Casa.Grande.mp4'',
          named_page ''Casa de Fruta'' ''videos/downtown/Downtown.Casa.de.Fruta.mp4'']
       = Inr [''set -e'',
              ''echo "[1/2]: Downtown.Casa.de.Fruta.mp4"'',
              ''curl https://vhost/hd.mp4 --create-dirs -k -o videos/downtown/Downtown.Casa.de.Fruta.mp4'',
              ''echo "[2/2]: Downtown.Casa.Grande.mp4"'',
              ''curl https://vhost/hd.mp4 --create-dirs -k -o videos/downtown/Downtown.Casa.Grande.mp4'']\<close>
  by code_simp

text \<open>
  C7, as amended. The commands are \<^verbatim>\<open>set -e\<close> followed by the commands of the resolved
  pages in the order of a list that has the same pages as the crawl collected and that,
  for a total and transitive \<^verbatim>\<open>localeCompare\<close>, is ordered by \<^verbatim>\<open>localeCompare\<close> on the
  canonical names, with the pages of one name in crawl order. For three resolved pages
  whose names \<^verbatim>\<open>localeCompare\<close> orders as \<open>a\<close>, \<open>b\<close>, \<open>c\<close>, crawled in any order, the commands
  are \<^verbatim>\<open>set -e\<close>, then those of the page named \<open>a\<close>, then those of the page named \<open>b\<close>,
  then those of the page named \<open>c\<close>.
\<close>

theorem generateCommands_sorted:
  \<open>((\<forall>p \<in> set videos. p_renamed p \<noteq> None) \<longrightarrow>
      (\<exists>sorted.
         mset sorted = mset videos
         \<and> generateCommands L videos
             = (case emitCommands L 0 (length videos) sorted of
                  Inl e \<Rightarrow> Inl e
                | Inr commands \<Rightarrow> Inr (''set -e'' # commands))
         \<and> (consistent (localeCompare L) \<longrightarrow>
              sorted_wrt (\<lambda>p q. localeCompare L (renamedOf p) (renamedOf q) \<le> 0) sorted
              \<and> (\<forall>n. filter (\<lambda>p. renamedOf p = n) sorted
                       = filter (\<lambda>p. renamedOf p = n) videos))))
   \<and> (p_renamed pA = Some a \<and> p_renamed pB = Some b \<and> p_renamed pC = Some c
        \<and> localeCompare L a b < 0 \<and> localeCompare L b c < 0 \<and> localeCompare L a c < 0
        \<and> 0 < localeCompare L b a \<and> 0 < localeCompare L c b \<and> 0 < localeCompare L c a
        \<and> mset videos = mset [pA, pB, pC]
        \<and> pageCommands L 0 3 pA = Inr cA \<and> pageCommands L 1 3 pB = Inr cB
        \<and> pageCommands L 2 3 pC = Inr cC
        \<longrightarrow> generateCommands L videos = Inr (''set -e'' # cA @ cB @ cC))\<close>
proof (rule conjI)
  show \<open>(\<forall>p \<in> set videos. p_renamed p \<noteq> None) \<longrightarrow>
      (\<exists>sorted.
         mset sorted = mset videos
         \<and> generateCommands L videos
             = (case emitCommands L 0 (length videos) sorted of
                  Inl e \<Rightarrow> Inl e
                | Inr commands \<Rightarrow> Inr (''set -e'' # commands))
         \<and> (consistent (localeCompare L) \<longrightarrow>
              sorted_wrt (\<lambda>p q. localeCompare L (renamedOf p) (renamedOf q) \<le> 0) sorted
              \<and> (\<forall>n. filter (\<lambda>p. renamedOf p = n) sorted
                       = filter (\<lambda>p. renamedOf p = n) videos)))\<close>
  proof
    assume renamed: "\<forall>p \<in> set videos. p_renamed p \<noteq> None"
    let ?sorted = "sortBy (byRenamed L) videos"
    have same: "mset ?sorted = mset videos"
      by (rule mset_sortBy)
    have commands: \<open>generateCommands L videos
             = (case emitCommands L 0 (length videos) ?sorted of
                  Inl e \<Rightarrow> Inl e
                | Inr commands \<Rightarrow> Inr (''set -e'' # commands))\<close>
    proof -
      have none: "(\<exists>p \<in> set videos. p_renamed p = None) = False"
        using renamed by blast
      show ?thesis
        unfolding generateCommands_def none by simp
    qed
    have ordered: "consistent (localeCompare L) \<longrightarrow>
              sorted_wrt (\<lambda>p q. localeCompare L (renamedOf p) (renamedOf q) \<le> 0) ?sorted
              \<and> (\<forall>n. filter (\<lambda>p. renamedOf p = n) ?sorted
                       = filter (\<lambda>p. renamedOf p = n) videos)"
    proof
      assume c: "consistent (localeCompare L)"
      then have "consistent (byRenamed L)"
        by (rule consistent_byRenamed)
      then have "sorted_wrt (\<lambda>p q. byRenamed L p q \<le> 0) ?sorted"
        unfolding consistent_def using sorted_sortBy [of "byRenamed L" videos] by blast
      then have order: "sorted_wrt (\<lambda>p q. localeCompare L (renamedOf p) (renamedOf q) \<le> 0) ?sorted"
        by (simp add: byRenamed_def)
      have reflexive: "\<And>n. localeCompare L n n \<le> 0"
        using c unfolding consistent_def by blast
      have stable: "\<forall>n. filter (\<lambda>p. renamedOf p = n) ?sorted
                        = filter (\<lambda>p. renamedOf p = n) videos"
      proof
        fix n
        have "\<forall>x y. renamedOf x = n \<and> renamedOf y = n \<longrightarrow> byRenamed L x y \<le> 0"
          using reflexive by (simp add: byRenamed_def)
        then show "filter (\<lambda>p. renamedOf p = n) ?sorted = filter (\<lambda>p. renamedOf p = n) videos"
          by (rule filter_sortBy)
      qed
      from order stable
      show "sorted_wrt (\<lambda>p q. localeCompare L (renamedOf p) (renamedOf q) \<le> 0) ?sorted
              \<and> (\<forall>n. filter (\<lambda>p. renamedOf p = n) ?sorted
                       = filter (\<lambda>p. renamedOf p = n) videos)"
        by (rule conjI)
    qed
    from same commands ordered
    show \<open>\<exists>sorted.
         mset sorted = mset videos
         \<and> generateCommands L videos
             = (case emitCommands L 0 (length videos) sorted of
                  Inl e \<Rightarrow> Inl e
                | Inr commands \<Rightarrow> Inr (''set -e'' # commands))
         \<and> (consistent (localeCompare L) \<longrightarrow>
              sorted_wrt (\<lambda>p q. localeCompare L (renamedOf p) (renamedOf q) \<le> 0) sorted
              \<and> (\<forall>n. filter (\<lambda>p. renamedOf p = n) sorted
                       = filter (\<lambda>p. renamedOf p = n) videos))\<close>
      by blast
  qed
next
  show \<open>p_renamed pA = Some a \<and> p_renamed pB = Some b \<and> p_renamed pC = Some c
        \<and> localeCompare L a b < 0 \<and> localeCompare L b c < 0 \<and> localeCompare L a c < 0
        \<and> 0 < localeCompare L b a \<and> 0 < localeCompare L c b \<and> 0 < localeCompare L c a
        \<and> mset videos = mset [pA, pB, pC]
        \<and> pageCommands L 0 3 pA = Inr cA \<and> pageCommands L 1 3 pB = Inr cB
        \<and> pageCommands L 2 3 pC = Inr cC
        \<longrightarrow> generateCommands L videos = Inr (''set -e'' # cA @ cB @ cC)\<close>
  proof
    assume h: "p_renamed pA = Some a \<and> p_renamed pB = Some b \<and> p_renamed pC = Some c
        \<and> localeCompare L a b < 0 \<and> localeCompare L b c < 0 \<and> localeCompare L a c < 0
        \<and> 0 < localeCompare L b a \<and> 0 < localeCompare L c b \<and> 0 < localeCompare L c a
        \<and> mset videos = mset [pA, pB, pC]
        \<and> pageCommands L 0 3 pA = Inr cA \<and> pageCommands L 1 3 pB = Inr cB
        \<and> pageCommands L 2 3 pC = Inr cC"
    have ab: "byRenamed L pA pB < 0" "0 < byRenamed L pB pA"
      and bc: "byRenamed L pB pC < 0" "0 < byRenamed L pC pB"
      and ac: "byRenamed L pA pC < 0" "0 < byRenamed L pC pA"
      using h by (simp_all add: byRenamed_def renamedOf_def)
    have sorted: "sortBy (byRenamed L) videos = [pA, pB, pC]"
      using sortBy_three [OF ab(1) bc(1) ac(1) ab(2) bc(2) ac(2)] h by blast
    have "set videos = set [pA, pB, pC]"
      using h mset_eq_setD by blast
    then have renamed: "\<not> (\<exists>p \<in> set videos. p_renamed p = None)"
      using h by auto
    have "length videos = 3"
      using h mset_eq_length [of videos "[pA, pB, pC]"] by simp
    then show "generateCommands L videos = Inr (''set -e'' # cA @ cB @ cC)"
      using renamed sorted h emitCommands_three [of L pA cA pB cB pC cC]
      by (simp add: generateCommands_def)
  qed
qed

theorem generateCommands_sorted_witness:
  \<open>localeCompare demo_lib ''videos/downtown/Downtown.A.mp4'' ''videos/downtown/Downtown.B.mp4'' < 0
   \<and> localeCompare demo_lib ''videos/downtown/Downtown.B.mp4'' ''videos/downtown/Downtown.C.mp4'' < 0
   \<and> localeCompare demo_lib ''videos/downtown/Downtown.A.mp4'' ''videos/downtown/Downtown.C.mp4'' < 0
   \<and> generateCommands demo_lib
         [named_page ''B'' ''videos/downtown/Downtown.B.mp4'',
          named_page ''A'' ''videos/downtown/Downtown.A.mp4'',
          named_page ''C'' ''videos/downtown/Downtown.C.mp4'']
       = Inr [''set -e'',
              ''echo "[1/3]: Downtown.A.mp4"'',
              ''curl https://vhost/hd.mp4 --create-dirs -k -o videos/downtown/Downtown.A.mp4'',
              ''echo "[2/3]: Downtown.B.mp4"'',
              ''curl https://vhost/hd.mp4 --create-dirs -k -o videos/downtown/Downtown.B.mp4'',
              ''echo "[3/3]: Downtown.C.mp4"'',
              ''curl https://vhost/hd.mp4 --create-dirs -k -o videos/downtown/Downtown.C.mp4'']
   \<and> (\<exists>sorted.
         mset sorted = mset [named_page ''B'' ''videos/downtown/Downtown.B.mp4'',
                             named_page ''A'' ''videos/downtown/Downtown.A.mp4'',
                             named_page ''C'' ''videos/downtown/Downtown.C.mp4'']
         \<and> sorted_wrt (\<lambda>p q. localeCompare demo_lib (renamedOf p) (renamedOf q) \<le> 0) sorted
         \<and> generateCommands demo_lib
              [named_page ''B'' ''videos/downtown/Downtown.B.mp4'',
               named_page ''A'' ''videos/downtown/Downtown.A.mp4'',
               named_page ''C'' ''videos/downtown/Downtown.C.mp4'']
             = (case emitCommands demo_lib 0 3 sorted of
                  Inl e \<Rightarrow> Inl e
                | Inr commands \<Rightarrow> Inr (''set -e'' # commands)))\<close>
proof -
  let ?a = "''videos/downtown/Downtown.A.mp4''" and ?b = "''videos/downtown/Downtown.B.mp4''"
    and ?c = "''videos/downtown/Downtown.C.mp4''"
  let ?A = "named_page ''A'' ?a" and ?B = "named_page ''B'' ?b" and ?C = "named_page ''C'' ?c"
  have consistent: "consistent (localeCompare demo_lib)"
    using consistent_collate by (simp add: demo_lib_def)
  have names: "p_renamed ?A = Some ?a" "p_renamed ?B = Some ?b" "p_renamed ?C = Some ?c"
    by (simp_all add: named_page_def)
  have all_named: "\<forall>p \<in> set [?B, ?A, ?C]. p_renamed p \<noteq> None"
    by (simp add: named_page_def)
  have before: "localeCompare demo_lib ?a ?b < 0" "localeCompare demo_lib ?b ?c < 0"
    "localeCompare demo_lib ?a ?c < 0"
    by code_simp+
  have after: "0 < localeCompare demo_lib ?b ?a" "0 < localeCompare demo_lib ?c ?b"
    "0 < localeCompare demo_lib ?c ?a"
    by code_simp+
  have given: "mset [?B, ?A, ?C] = mset [?A, ?B, ?C]"
    by simp
  have cA: \<open>pageCommands demo_lib 0 3 ?A
            = Inr [''echo "[1/3]: Downtown.A.mp4"'',
                   ''curl https://vhost/hd.mp4 --create-dirs -k -o videos/downtown/Downtown.A.mp4'']\<close>
    by code_simp
  have cB: \<open>pageCommands demo_lib 1 3 ?B
            = Inr [''echo "[2/3]: Downtown.B.mp4"'',
                   ''curl https://vhost/hd.mp4 --create-dirs -k -o videos/downtown/Downtown.B.mp4'']\<close>
    by code_simp
  have cC: \<open>pageCommands demo_lib 2 3 ?C
            = Inr [''echo "[3/3]: Downtown.C.mp4"'',
                   ''curl https://vhost/hd.mp4 --create-dirs -k -o videos/downtown/Downtown.C.mp4'']\<close>
    by code_simp
  note general = generateCommands_sorted [of "[?B, ?A, ?C]" demo_lib ?A ?a ?B ?b ?C ?c]
  have three: \<open>generateCommands demo_lib [?B, ?A, ?C]
       = Inr [''set -e'',
              ''echo "[1/3]: Downtown.A.mp4"'',
              ''curl https://vhost/hd.mp4 --create-dirs -k -o videos/downtown/Downtown.A.mp4'',
              ''echo "[2/3]: Downtown.B.mp4"'',
              ''curl https://vhost/hd.mp4 --create-dirs -k -o videos/downtown/Downtown.B.mp4'',
              ''echo "[3/3]: Downtown.C.mp4"'',
              ''curl https://vhost/hd.mp4 --create-dirs -k -o videos/downtown/Downtown.C.mp4'']\<close>
    using general [THEN conjunct2] names before after given cA cB cC by simp
  have sorted: \<open>\<exists>sorted.
         mset sorted = mset [?B, ?A, ?C]
         \<and> sorted_wrt (\<lambda>p q. localeCompare demo_lib (renamedOf p) (renamedOf q) \<le> 0) sorted
         \<and> generateCommands demo_lib [?B, ?A, ?C]
             = (case emitCommands demo_lib 0 3 sorted of
                  Inl e \<Rightarrow> Inl e
                | Inr commands \<Rightarrow> Inr (''set -e'' # commands))\<close>
  proof -
    have len: "length [?B, ?A, ?C] = 3"
      by simp
    obtain sorted where
      same: "mset sorted = mset [?B, ?A, ?C]" and
      commands: \<open>generateCommands demo_lib [?B, ?A, ?C]
                 = (case emitCommands demo_lib 0 (length [?B, ?A, ?C]) sorted of
                      Inl e \<Rightarrow> Inl e
                    | Inr commands \<Rightarrow> Inr (''set -e'' # commands))\<close> and
      ordered: "consistent (localeCompare demo_lib) \<longrightarrow>
                sorted_wrt (\<lambda>p q. localeCompare demo_lib (renamedOf p) (renamedOf q) \<le> 0) sorted
                \<and> (\<forall>n. filter (\<lambda>p. renamedOf p = n) sorted
                         = filter (\<lambda>p. renamedOf p = n) [?B, ?A, ?C])"
      using general [THEN conjunct1, THEN mp, OF all_named] by blast
    from same commands ordered consistent show ?thesis
      unfolding len by blast
  qed
  show ?thesis
    using before three sorted by simp
qed

subsection \<open>The crawl\<close>

lemma feedRequests_cache_page: "feedRequests (cache_page u p st) = feedRequests st"
  by (simp add: feedRequests_def cache_page_def)

lemma getTVDBEpisodes_feedRequests:
  "getTVDBEpisodes W seriesId st = (r, st1) \<Longrightarrow> feedRequests st1 = feedRequests st"
  by (auto simp: getTVDBEpisodes_def feedRequests_def sent_def split: option.splits sum.splits)

lemma renameEpisode_feedRequests:
  "renameEpisode L W page st = (r, st1) \<Longrightarrow> feedRequests st1 = feedRequests st"
  unfolding renameEpisode_def Let_def
  by (auto simp: feedRequests_def split: option.splits prod.splits sum.splits list.splits
           dest!: getTVDBEpisodes_feedRequests)

lemma getPageVideos_feedRequests:
  "getPageVideos L W pageUrl st = (r, st1) \<Longrightarrow> feedRequests st1 = feedRequests st"
proof (cases r)
  case (Inl e)
  assume "getPageVideos L W pageUrl st = (r, st1)"
  with Inl show ?thesis
    using getPageVideos_failed_probed [of L W pageUrl st e st1] by (simp add: probed_def)
next
  case (Inr p)
  assume "getPageVideos L W pageUrl st = (r, st1)"
  with Inr show ?thesis
    unfolding getPageVideos_def Let_def
    by (auto simp: feedRequests_cache_page probed_def feedRequests_sent
             split: option.splits sum.splits prod.splits if_splits
             dest!: getVideosFromIframe_probed getVideosFromJWPlayer_probed)
qed

lemma crawlLinks_feedRequests:
  "crawlLinks L W showName links videos st = (r, videos1, st1)
   \<Longrightarrow> feedRequests st1 = feedRequests st"
proof (induction links arbitrary: videos st)
  case Nil
  then show ?case by simp
next
  case (Cons link links)
  obtain r0 st0 where page: "getPageVideos L W link st = (r0, st0)"
    by (cases "getPageVideos L W link st")
  have f0: "feedRequests st0 = feedRequests st"
    using page by (rule getPageVideos_feedRequests)
  show ?case
  proof (cases r0)
    case (Inl e)
    then show ?thesis using Cons.prems page f0 by simp
  next
    case (Inr fetched)
    let ?page = "fetched\<lparr>p_show := Some showName\<rparr>"
    obtain r2 st2 where name: "renameEpisode L W ?page (cache_page link ?page st0) = (r2, st2)"
      by (cases "renameEpisode L W ?page (cache_page link ?page st0)")
    have f2: "feedRequests st2 = feedRequests st"
      using renameEpisode_feedRequests [OF name] f0 by (simp add: feedRequests_cache_page)
    show ?thesis
    proof (cases r2)
      case (Inl e)
      then show ?thesis using Cons.prems page Inr name f2 by (simp add: Let_def)
    next
      case renamed: (Inr renamed)
      show ?thesis
      proof (cases "bestVideo ?page")
        case None
        then show ?thesis
          using Cons.prems page Inr name renamed f2
          by (auto simp: Let_def feedRequests_cache_page)
      next
        case (Some v)
        then show ?thesis
          using Cons.prems page Inr name renamed f2
            Cons.IH [of "videos @ [?page\<lparr>p_renamed := Some renamed\<rparr>]"
                        "cache_page link (?page\<lparr>p_renamed := Some renamed\<rparr>) st2"]
          by (simp add: Let_def feedRequests_cache_page)
      qed
    qed
  qed
qed

lemma crawlLinks_complete:
  "crawlLinks L W showName links videos st = (r, videos1, st1)
   \<Longrightarrow> list_all complete videos \<Longrightarrow> list_all complete videos1"
proof (induction links arbitrary: videos st)
  case Nil
  then show ?case by simp
next
  case (Cons link links)
  obtain r0 st0 where page: "getPageVideos L W link st = (r0, st0)"
    by (cases "getPageVideos L W link st")
  show ?case
  proof (cases r0)
    case (Inl e)
    then show ?thesis using Cons.prems page by simp
  next
    case (Inr fetched)
    let ?page = "fetched\<lparr>p_show := Some showName\<rparr>"
    obtain r2 st2 where name: "renameEpisode L W ?page (cache_page link ?page st0) = (r2, st2)"
      by (cases "renameEpisode L W ?page (cache_page link ?page st0)")
    show ?thesis
    proof (cases r2)
      case (Inl e)
      then show ?thesis using Cons.prems page Inr name by (simp add: Let_def)
    next
      case renamed: (Inr renamed)
      show ?thesis
      proof (cases "bestVideo ?page")
        case None
        then show ?thesis
          using Cons.prems page Inr name renamed by (auto simp: Let_def)
      next
        case (Some v)
        then have "complete (?page\<lparr>p_renamed := Some renamed\<rparr>)"
          by (auto simp: complete_def bestVideo_def split: option.splits)
        then show ?thesis
          using Some Cons.prems page Inr name renamed
            Cons.IH [of "videos @ [?page\<lparr>p_renamed := Some renamed\<rparr>]"
                        "cache_page link (?page\<lparr>p_renamed := Some renamed\<rparr>) st2"]
          by (simp add: Let_def)
      qed
    qed
  qed
qed

lemma crawlPage_continues:
  assumes "crawlPage L W showName pageNumber videos st = (None, videos1, st1)"
  shows "feedRequests st1
         = feedRequests st @ [feedPageUrl (categoryFeedUrl showName) pageNumber]"
    and "list_all complete videos \<Longrightarrow> list_all complete videos1"
  using assms
  unfolding crawlPage_def getFeedPageLinks_def Let_def
  by (auto simp: feedRequests_sent
           split: option.splits feed_response.splits if_splits
           dest: crawlLinks_feedRequests crawlLinks_complete)

lemma crawlFor_continues:
  assumes "crawlFor k L W showName n videos st = (None, videos1, st1)"
  shows "feedRequests st1
         = feedRequests st @ map (feedPageUrl (categoryFeedUrl showName)) [n..<n + k]
       \<and> (list_all complete videos \<longrightarrow> list_all complete videos1)"
  using assms
proof (induction k arbitrary: n videos st)
  case 0
  then show ?case by simp
next
  case (Suc k)
  obtain r v s where page: "crawlPage L W showName n videos st = (r, v, s)"
    by (cases "crawlPage L W showName n videos st")
  show ?case
  proof (cases r)
    case (Some e)
    then show ?thesis using Suc.prems page by simp
  next
    case None
    then have rest: "crawlFor k L W showName (n + 1) v s = (None, videos1, st1)"
      using Suc.prems page by simp
    have one: "feedRequests s = feedRequests st @ [feedPageUrl (categoryFeedUrl showName) n]"
      and inv: "list_all complete videos \<longrightarrow> list_all complete v"
      using crawlPage_continues [of L W showName n videos st v s] page None by simp_all
    have upt: "[n..<n + Suc k] = n # [n + 1..<n + 1 + k]"
      by (simp add: upt_conv_Cons)
    show ?thesis
      using Suc.IH [OF rest] one inv unfolding upt by simp
  qed
qed

lemma crawlPages_crawlFor:
  assumes "crawlFor k L W showName n videos st = (None, videos1, st1)"
  shows "crawlPages L W showName n videos st = crawlPages L W showName (n + k) videos1 st1"
  using assms
proof (induction k arbitrary: n videos st)
  case 0
  then show ?case by simp
next
  case (Suc k)
  obtain r v s where page: "crawlPage L W showName n videos st = (r, v, s)"
    by (cases "crawlPage L W showName n videos st")
  show ?case
  proof (cases r)
    case (Some e)
    then show ?thesis using Suc.prems page by simp
  next
    case None
    then have rest: "crawlFor k L W showName (n + 1) v s = (None, videos1, st1)"
      using Suc.prems page by simp
    have "crawlPages L W showName n videos st = crawlPages L W showName (n + 1) v s"
      using page None by (subst crawlPages.simps) simp
    then show ?thesis
      using Suc.IH [OF rest] by simp
  qed
qed

lemma crawlPages_stops:
  assumes "crawlPage L W showName n videos st = (Some e, videos1, st1)"
  shows "crawlPages L W showName n videos st = Some (e, videos1, st1)"
  using assms by (subst crawlPages.simps) simp

lemma crawlPage_not_found:
  assumes "map_of SHOWS showName = Some descriptor"
    and "feed_get W (requests st) (feedPageUrl (categoryFeedUrl showName) n) = Feed title links"
    and "startsWith title ''Page not found''"
  shows "crawlPage L W showName n videos st
         = (Some (Thrown ''Page not found''), videos,
            sent (FeedGet (feedPageUrl (categoryFeedUrl showName) n)) st)"
  using assms by (simp add: crawlPage_def getFeedPageLinks_def)

lemma crawlPage_empty:
  assumes "map_of SHOWS showName = Some descriptor"
    and "feed_get W (requests st) (feedPageUrl (categoryFeedUrl showName) n) = Feed title []"
    and "\<not> startsWith title ''Page not found''"
  shows "crawlPage L W showName n videos st
         = (None, videos, sent (FeedGet (feedPageUrl (categoryFeedUrl showName) n)) st)"
  using assms by (simp add: crawlPage_def getFeedPageLinks_def)

lemma pageCommands_complete:
  assumes "complete page"
  shows "\<exists>commands. pageCommands L index videosLength page = Inr commands"
  using assms
  by (auto simp: complete_def pageCommands_def formatCurlParameters_def Let_def)

lemma emitCommands_complete:
  assumes "list_all complete ps"
  shows "\<exists>commands. emitCommands L index videosLength ps = Inr commands"
  using assms
proof (induction ps arbitrary: index)
  case Nil
  show ?case by simp
next
  case (Cons p ps)
  obtain c where c: "pageCommands L index videosLength p = Inr c"
    using Cons.prems pageCommands_complete [of p L index videosLength] by auto
  obtain cs where cs: "emitCommands L (index + 1) videosLength ps = Inr cs"
    using Cons.prems Cons.IH [of "index + 1"] by auto
  show ?case
    using c cs by simp
qed

lemma generateCommands_complete:
  assumes "list_all complete videos"
  shows "\<exists>commands. generateCommands L videos = Inr commands"
proof -
  have renamed: "\<not> (\<exists>p \<in> set videos. p_renamed p = None)"
    using assms by (auto simp: list_all_iff complete_def)
  have "list_all complete (sortBy (byRenamed L) videos)"
    using assms by (simp add: list_all_iff set_sortBy)
  then obtain cs where "emitCommands L 0 (length videos) (sortBy (byRenamed L) videos) = Inr cs"
    using emitCommands_complete by blast
  then show ?thesis
    using renamed by (simp add: generateCommands_def)
qed

text \<open>
  C6. For a show of \<open>SHOWS\<close>, the crawl starts at page 1. If its first \<open>k\<close> turns end
  without an exception and the feed of page \<open>k + 1\<close> has a title that starts with
  \<^verbatim>\<open>Page not found\<close>, then \<open>crawlCategory\<close> returns: the \<^verbatim>\<open>catch\<close> clause received the
  end-of-feed signal, the commands are those of the pages collected in the \<open>k\<close> turns and
  are written without an error, and the feed pages requested were the pages 1 to
  \<open>k + 1\<close>, each once, and no other. A feed page with no links and another title lets the
  loop go on with the next page number, with the same videos.
\<close>

theorem crawlCategory_end_of_feed:
  assumes "map_of SHOWS showName = Some descriptor"
  shows "(\<forall>k videos st1 title links.
            crawlFor k L W showName 1 [] st = (None, videos, st1)
            \<and> feed_get W (requests st1) (feedPageUrl (categoryFeedUrl showName) (k + 1))
                = Feed title links
            \<and> startsWith title ''Page not found''
            \<longrightarrow> crawlCategory L W showName st
                  = Some \<lparr>caught = Thrown ''Page not found'',
                          cache_json = sent (FeedGet (feedPageUrl (categoryFeedUrl showName) (k + 1))) st1,
                          download_sh = generateCommands L videos\<rparr>
              \<and> (\<exists>commands. generateCommands L videos = Inr commands)
              \<and> feedRequests (sent (FeedGet (feedPageUrl (categoryFeedUrl showName) (k + 1))) st1)
                  = feedRequests st @ map (feedPageUrl (categoryFeedUrl showName)) [1..<k + 2])
       \<and> (\<forall>pageNumber videos st' title.
            feed_get W (requests st') (feedPageUrl (categoryFeedUrl showName) pageNumber)
              = Feed title []
            \<and> \<not> startsWith title ''Page not found''
            \<longrightarrow> crawlPages L W showName pageNumber videos st'
                = crawlPages L W showName (pageNumber + 1) videos
                    (sent (FeedGet (feedPageUrl (categoryFeedUrl showName) pageNumber)) st'))"
proof (intro conjI allI impI)
  fix k videos st1 title links
  let ?url = "feedPageUrl (categoryFeedUrl showName)"
  assume h: "crawlFor k L W showName 1 [] st = (None, videos, st1)
             \<and> feed_get W (requests st1) (?url (k + 1)) = Feed title links
             \<and> startsWith title ''Page not found''"
  have turns: "crawlPages L W showName 1 [] st = crawlPages L W showName (1 + k) videos st1"
    using h crawlPages_crawlFor by blast
  have last: "crawlPage L W showName (1 + k) videos st1
              = (Some (Thrown ''Page not found''), videos, sent (FeedGet (?url (1 + k))) st1)"
    using crawlPage_not_found [OF assms, of W st1 "1 + k" title links L videos] h by simp
  have "crawlPages L W showName 1 [] st
        = Some (Thrown ''Page not found'', videos, sent (FeedGet (?url (1 + k))) st1)"
    using turns crawlPages_stops [OF last] by simp
  then show "crawlCategory L W showName st
             = Some \<lparr>caught = Thrown ''Page not found'',
                     cache_json = sent (FeedGet (?url (k + 1))) st1,
                     download_sh = generateCommands L videos\<rparr>"
    by (simp add: crawlCategory_def)
  have facts: "feedRequests st1 = feedRequests st @ map ?url [1..<1 + k]
               \<and> (list_all complete [] \<longrightarrow> list_all complete videos)"
    using h crawlFor_continues [of k L W showName 1 "[]" st videos st1] by blast
  then show "\<exists>commands. generateCommands L videos = Inr commands"
    using generateCommands_complete by simp
  show "feedRequests (sent (FeedGet (?url (k + 1))) st1) = feedRequests st @ map ?url [1..<k + 2]"
    using facts by (simp add: feedRequests_sent)
next
  fix pageNumber videos and st' :: state and title
  let ?url = "feedPageUrl (categoryFeedUrl showName)"
  assume h: "feed_get W (requests st') (?url pageNumber) = Feed title []
             \<and> \<not> startsWith title ''Page not found''"
  have "crawlPage L W showName pageNumber videos st'
        = (None, videos, sent (FeedGet (?url pageNumber)) st')"
    using crawlPage_empty [OF assms, of W st' pageNumber title L videos] h by simp
  then show "crawlPages L W showName pageNumber videos st'
             = crawlPages L W showName (pageNumber + 1) videos (sent (FeedGet (?url pageNumber)) st')"
    by (subst crawlPages.simps) simp
qed

theorem crawlCategory_end_of_feed_witness:
  \<open>map_option caught (crawlCategory demo_lib demo_net ''californias-gold'' empty_state)
     = Some (Thrown ''Page not found'')
   \<and> map_option download_sh (crawlCategory demo_lib demo_net ''californias-gold'' empty_state)
       = Some (Inr [''set -e'', ''echo "[1/1]: Californias.Gold.S02E12.Old.Faithful.mp4"'',
                    ''curl https://vhost/hd.mp4 --create-dirs -k -o videos/californias-gold/Californias.Gold.S02E12.Old.Faithful.mp4''])
   \<and> map_option (\<lambda>outcome. feedRequests (cache_json outcome))
         (crawlCategory demo_lib demo_net ''californias-gold'' empty_state)
       = Some (map (feedPageUrl (categoryFeedUrl ''californias-gold'')) [1, 2, 3])
   \<and> feed_get demo_net (requests empty_state) (feedPageUrl (categoryFeedUrl ''californias-gold'') 1)
       = Feed ''California's Gold'' []
   \<and> crawlPages demo_lib demo_net ''californias-gold'' 1 [] empty_state
       = crawlPages demo_lib demo_net ''californias-gold'' 2 []
           (sent (FeedGet (feedPageUrl (categoryFeedUrl ''californias-gold'') 1)) empty_state)\<close>
proof -
  let ?url = "feedPageUrl (categoryFeedUrl ''californias-gold'')"
  let ?turns = "crawlFor 2 demo_lib demo_net ''californias-gold'' 1 [] empty_state"
  let ?videos = "fst (snd ?turns)"
  let ?st1 = "snd (snd ?turns)"
  have known: "map_of SHOWS ''californias-gold''
               = Some \<lparr>sh_name = ''California's Gold'', sh_tvdb_id = Some 279999\<rparr>"
    by code_simp
  have "fst ?turns = None"
    by code_simp
  then have turns: "?turns = (None, ?videos, ?st1)"
    by (metis prod.collapse)
  have history: "\<And>h u. feed_get demo_net h u = feed_get demo_net [] u"
    by (simp add: demo_net_def)
  have "feed_get demo_net [] (?url (2 + 1)) = Feed ''Page not found | Huell Howser Archives'' []"
    by code_simp
  then have third: "feed_get demo_net (requests ?st1) (?url (2 + 1))
                    = Feed ''Page not found | Huell Howser Archives'' []"
    using history [of "requests ?st1"] by simp
  have marker: "startsWith ''Page not found | Huell Howser Archives'' ''Page not found''"
    by code_simp
  have "feed_get demo_net [] (?url 1) = Feed ''California's Gold'' []"
    by code_simp
  then have first: "feed_get demo_net (requests empty_state) (?url 1) = Feed ''California's Gold'' []"
    using history [of "requests empty_state"] by simp
  have other: "\<not> startsWith ''California's Gold'' ''Page not found''"
    by code_simp
  have commands: \<open>generateCommands demo_lib ?videos
      = Inr [''set -e'', ''echo "[1/1]: Californias.Gold.S02E12.Old.Faithful.mp4"'',
             ''curl https://vhost/hd.mp4 --create-dirs -k -o videos/californias-gold/Californias.Gold.S02E12.Old.Faithful.mp4'']\<close>
    by code_simp
  have requested: "feedRequests empty_state = []"
    by (simp add: feedRequests_def empty_state_def)
  have pages: "[1..<2 + 2] = [1, 2, 3::nat]"
    by code_simp
  note general = crawlCategory_end_of_feed [OF known, of demo_lib demo_net empty_state]
  have whole: "crawlCategory demo_lib demo_net ''californias-gold'' empty_state
                 = Some \<lparr>caught = Thrown ''Page not found'',
                         cache_json = sent (FeedGet (?url (2 + 1))) ?st1,
                         download_sh = generateCommands demo_lib ?videos\<rparr>
               \<and> feedRequests (sent (FeedGet (?url (2 + 1))) ?st1)
                   = feedRequests empty_state @ map ?url [1..<2 + 2]"
    using general [THEN conjunct1, rule_format, of 2 ?videos ?st1
                     "''Page not found | Huell Howser Archives''" "[]"]
          turns third marker
    by blast
  have empty: "crawlPages demo_lib demo_net ''californias-gold'' 1 [] empty_state
               = crawlPages demo_lib demo_net ''californias-gold'' (1 + 1) []
                   (sent (FeedGet (?url 1)) empty_state)"
    using general [THEN conjunct2, rule_format, of empty_state 1 "''California's Gold''" "[]"]
          first other
    by blast
  show ?thesis
    using whole empty first commands requested pages
    by (simp add: numeral_2_eq_2 del: upt_Suc)
qed

end
